theory Spec2Isabelle
  imports Main
begin

section \<open>Values exchanged with the two services\<close>

text \<open>
  Both services answer with JSON documents, which \<^verbatim>\<open>r.json()\<close> turns into Python
  values: \<^verbatim>\<open>None\<close>, booleans, numbers, strings, lists and dictionaries. A dictionary is
  an association list read with \<open>map_of\<close>. Numbers are integers; a number with a
  fraction or an exponent is not represented.
\<close>

datatype json =
    JNull
  | JBool bool
  | JNum int
  | JStr string
  | JArr "json list"
  | JObj "(string \<times> json) list"

text \<open>The exceptions that the statements of the program can raise on such values.\<close>

datatype py_exc = KeyError | IndexError | TypeError | AttributeError

text \<open>
  A statement of the program either completes with a value, ends the process through
  \<^verbatim>\<open>exit(n)\<close>, or raises an exception that nothing in the program catches.
\<close>

datatype 'a outcome = Return 'a | Exit nat | Raise py_exc

datatype level = DEBUG | INFO | ERROR

text \<open>
  A record handed to \<^verbatim>\<open>logging\<close>: its level, the literal text of the message and the
  values interpolated into it.
\<close>

type_synonym log_entry = "level \<times> string \<times> json list"

text \<open>
  A URL built by an f-string is kept as its literal text and the value interpolated at
  its end, when there is one.
\<close>

type_synonym url = "string \<times> json option"

record request =
  url :: url
  http_method :: string
  headers :: "(string \<times> string) list"
  params :: "(string \<times> json) list"
  data :: "json option"

text \<open>
  What one call of \<^verbatim>\<open>requests.get\<close>, \<^verbatim>\<open>requests.post\<close> or \<^verbatim>\<open>requests.patch\<close> meets:
  no response at all, or a response with a status code and a body that parses as JSON
  or does not.
\<close>

datatype http_reply = ConnFail | Reply nat "json option"

text \<open>
  The remote services are a state \<open>'w\<close> and a function from the state and a request to
  the reply and the next state. The run of the program carries that state, the
  exchanges made so far and the records handed to \<^verbatim>\<open>logging\<close>.
\<close>

type_synonym 'w server = "'w \<Rightarrow> request \<Rightarrow> http_reply \<times> 'w"

record 'w env =
  world :: 'w
  trace :: "(request \<times> http_reply) list"
  logs :: "log_entry list"

definition logging :: "level \<Rightarrow> string \<Rightarrow> json list \<Rightarrow> 'w env \<Rightarrow> 'w env" where
  "logging l msg vs e = e\<lparr>logs := logs e @ [(l, msg, vs)]\<rparr>"

text \<open>Sequencing: after \<^verbatim>\<open>exit\<close> or an uncaught exception nothing else runs.\<close>

definition then_do ::
  "('s \<Rightarrow> 'a outcome \<times> 's) \<Rightarrow> ('a \<Rightarrow> 's \<Rightarrow> 'b outcome \<times> 's) \<Rightarrow> 's \<Rightarrow> 'b outcome \<times> 's" where
  "then_do m k s =
     (case m s of
        (Return x, s1) \<Rightarrow> k x s1
      | (Exit n, s1) \<Rightarrow> (Exit n, s1)
      | (Raise x, s1) \<Rightarrow> (Raise x, s1))"

definition lift :: "py_exc + 'a \<Rightarrow> 's \<Rightarrow> 'a outcome \<times> 's" where
  "lift r s = (case r of Inl x \<Rightarrow> (Raise x, s) | Inr v \<Rightarrow> (Return v, s))"

section \<open>HttpResponder\<close>

text \<open>
  \<^verbatim>\<open>r.raise_for_status()\<close> raises \<^verbatim>\<open>HTTPError\<close>, a \<^verbatim>\<open>RequestException\<close>, for the
  status codes from 400 to 599 and for no other.
\<close>

definition raise_for_status :: "nat \<Rightarrow> bool" where
  "raise_for_status st = (400 \<le> st \<and> st < 600)"

text \<open>
  The body of each of the three branches of \<^verbatim>\<open>json_request\<close>: one call of the HTTP
  library, then \<^verbatim>\<open>raise_for_status\<close>, then \<^verbatim>\<open>r.json()\<close>, inside the \<^verbatim>\<open>try\<close>. No response
  and an error status end in the first handler. A body that is no JSON ends in one of
  the two handlers; both log at error level and call \<^verbatim>\<open>exit(1)\<close>.
\<close>

definition send :: "'w server \<Rightarrow> request \<Rightarrow> 'w env \<Rightarrow> json outcome \<times> 'w env" where
  "send srv rq e =
     (case srv (world e) rq of
        (rp, w') \<Rightarrow>
          (let e' = e\<lparr>world := w', trace := trace e @ [(rq, rp)]\<rparr> in
           case rp of
             ConnFail \<Rightarrow> (Exit 1, logging ERROR ''Request error'' [] e')
           | Reply st body \<Rightarrow>
               if raise_for_status st then (Exit 1, logging ERROR ''Request error'' [] e')
               else (case body of
                       None \<Rightarrow> (Exit 1, logging ERROR ''Error decoding response as JSON'' [] e')
                     | Some j \<Rightarrow> (Return j, e'))))"

definition json_request ::
  "'w server \<Rightarrow> url \<Rightarrow> string \<Rightarrow> (string \<times> string) list \<Rightarrow> (string \<times> json) list \<Rightarrow>
     json option \<Rightarrow> 'w env \<Rightarrow> json outcome \<times> 'w env" where
  "json_request srv u m hs ps d e =
     (if m = ''get'' then
        send srv \<lparr>url = u, http_method = ''get'', headers = hs, params = ps, data = None\<rparr> e
      else if m = ''post'' then
        send srv \<lparr>url = u, http_method = ''post'', headers = hs, params = ps, data = d\<rparr> e
      else if m = ''patch'' then
        send srv \<lparr>url = u, http_method = ''patch'', headers = hs, params = ps, data = d\<rparr> e
      else (Exit 1, logging ERROR ''Non supported/incorrect HTTP verb: '' [JStr m] e))"

text \<open>The request that \<^verbatim>\<open>json_request\<close> hands to the HTTP library.\<close>

definition request_of ::
  "url \<Rightarrow> string \<Rightarrow> (string \<times> string) list \<Rightarrow> (string \<times> json) list \<Rightarrow> json option \<Rightarrow> request" where
  "request_of u m hs ps d =
     \<lparr>url = u, http_method = m, headers = hs, params = ps,
      data = (if m = ''get'' then None else d)\<rparr>"

definition supported :: "string \<Rightarrow> bool" where
  "supported m = (m = ''get'' \<or> m = ''post'' \<or> m = ''patch'')"

section \<open>Python operations on the decoded documents\<close>

text \<open>
  \<^verbatim>\<open>v[k]\<close> for a string \<open>k\<close>: a dictionary yields the value or raises \<^verbatim>\<open>KeyError\<close>; a
  list, a string, a number, a boolean and \<^verbatim>\<open>None\<close> raise \<^verbatim>\<open>TypeError\<close>.
\<close>

definition getitem :: "json \<Rightarrow> string \<Rightarrow> py_exc + json" where
  "getitem v k =
     (case v of
        JObj kvs \<Rightarrow> (case map_of kvs k of None \<Rightarrow> Inl KeyError | Some x \<Rightarrow> Inr x)
      | _ \<Rightarrow> Inl TypeError)"

text \<open>
  \<^verbatim>\<open>v[0]\<close>: the first element of a list or the first character of a string,
  \<^verbatim>\<open>IndexError\<close> when it is empty; a dictionary has no key \<open>0\<close> (its keys are strings),
  hence \<^verbatim>\<open>KeyError\<close>; \<^verbatim>\<open>TypeError\<close> otherwise.
\<close>

definition getitem0 :: "json \<Rightarrow> py_exc + json" where
  "getitem0 v =
     (case v of
        JArr xs \<Rightarrow> (case xs of [] \<Rightarrow> Inl IndexError | x # _ \<Rightarrow> Inr x)
      | JStr s \<Rightarrow> (case s of [] \<Rightarrow> Inl IndexError | c # _ \<Rightarrow> Inr (JStr [c]))
      | JObj kvs \<Rightarrow> Inl KeyError
      | _ \<Rightarrow> Inl TypeError)"

text \<open>
  What a \<^verbatim>\<open>for\<close> loop runs over: the elements of a list, the characters of a string,
  the keys of a dictionary; the other values are not iterable.
\<close>

definition iter :: "json \<Rightarrow> py_exc + json list" where
  "iter v =
     (case v of
        JArr xs \<Rightarrow> Inr xs
      | JStr s \<Rightarrow> Inr (map (\<lambda>c. JStr [c]) s)
      | JObj kvs \<Rightarrow> Inr (map (\<lambda>kv. JStr (fst kv)) kvs)
      | _ \<Rightarrow> Inl TypeError)"

text \<open>Truth value of a document, as \<^verbatim>\<open>not x\<close> tests it.\<close>

definition truthy :: "json \<Rightarrow> bool" where
  "truthy v =
     (case v of
        JNull \<Rightarrow> False
      | JBool b \<Rightarrow> b
      | JNum n \<Rightarrow> n \<noteq> 0
      | JStr s \<Rightarrow> s \<noteq> []
      | JArr xs \<Rightarrow> xs \<noteq> []
      | JObj kvs \<Rightarrow> kvs \<noteq> [])"

text \<open>\<^verbatim>\<open>d[k] = v\<close> on a dictionary: the entry is replaced in place, or added at the end.\<close>

fun dict_set :: "(string \<times> 'a) list \<Rightarrow> string \<Rightarrow> 'a \<Rightarrow> (string \<times> 'a) list" where
  "dict_set [] k v = [(k, v)]"
| "dict_set (kv # kvs) k v = (if fst kv = k then (k, v) # kvs else kv # dict_set kvs k v)"

subsection \<open>Sets\<close>

text \<open>
  A Python set of documents is the list of its elements, no two of them equal in
  Python's sense. Lists and dictionaries are not hashable and cannot be elements. Among
  the others \<^verbatim>\<open>True == 1\<close> and \<^verbatim>\<open>False == 0\<close> hold, and nothing else is equal across
  constructors: \<open>py_key\<close> maps equal values to one representative.
\<close>

definition hashable :: "json \<Rightarrow> bool" where
  "hashable v = (case v of JArr xs \<Rightarrow> False | JObj kvs \<Rightarrow> False | _ \<Rightarrow> True)"

definition py_key :: "json \<Rightarrow> json" where
  "py_key v = (case v of JBool b \<Rightarrow> JNum (if b then 1 else 0) | _ \<Rightarrow> v)"

definition set_member :: "json \<Rightarrow> json list \<Rightarrow> bool" where
  "set_member x xs = (py_key x \<in> py_key ` set xs)"

text \<open>\<^verbatim>\<open>s.add(x)\<close>: an element equal to \<open>x\<close> stays; otherwise \<open>x\<close> joins.\<close>

definition set_add :: "json list \<Rightarrow> json \<Rightarrow> py_exc + json list" where
  "set_add xs x =
     (if hashable x then Inr (if set_member x xs then xs else xs @ [x])
      else Inl TypeError)"

text \<open>\<^verbatim>\<open>s - t\<close>: the elements of \<open>s\<close> that have no equal in \<open>t\<close>.\<close>

definition set_diff :: "json list \<Rightarrow> json list \<Rightarrow> json list" where
  "set_diff xs ys = filter (\<lambda>x. \<not> set_member x ys) xs"

section \<open>Dates\<close>

text \<open>
  \<^verbatim>\<open>datetime.date\<close>, with the ordinal arithmetic of the standard library;
  \<^verbatim>\<open>isocalendar\<close> gives the ISO 8601 year and week, and \<^verbatim>\<open>strftime('%V')\<close> prints that
  week as two digits.
\<close>

record date =
  year :: int
  month :: int
  day :: int

definition is_leap :: "int \<Rightarrow> bool" where
  "is_leap y = (y mod 4 = 0 \<and> (if y mod 100 = 0 then y mod 400 = 0 else True))"

definition days_in_month :: "int \<Rightarrow> int \<Rightarrow> int" where
  "days_in_month y m =
     (if m = 2 then (if is_leap y then 29 else 28)
      else if m = 4 \<or> m = 6 \<or> m = 9 \<or> m = 11 then 30 else 31)"

definition valid_date :: "date \<Rightarrow> bool" where
  "valid_date d =
     (1 \<le> year d \<and> year d \<le> 9999 \<and> 1 \<le> month d \<and> month d \<le> 12 \<and>
      1 \<le> day d \<and> day d \<le> days_in_month (year d) (month d))"

definition days_before_year :: "int \<Rightarrow> int" where
  "days_before_year y = (y - 1) * 365 + (y - 1) div 4 - (y - 1) div 100 + (y - 1) div 400"

definition days_before_month :: "int \<Rightarrow> int \<Rightarrow> int" where
  "days_before_month y m =
     [0, 31, 59, 90, 120, 151, 181, 212, 243, 273, 304, 334] ! nat (m - 1)
       + (if m > 2 \<and> is_leap y then 1 else 0)"

definition ymd2ord :: "int \<Rightarrow> int \<Rightarrow> int \<Rightarrow> int" where
  "ymd2ord y m d = days_before_year y + days_before_month y m + d"

definition isoweek1monday :: "int \<Rightarrow> int" where
  "isoweek1monday y =
     (let firstday = ymd2ord y 1 1;
          firstweekday = (firstday + 6) mod 7;
          week1monday = firstday - firstweekday
      in if firstweekday > 3 then week1monday + 7 else week1monday)"

text \<open>The ISO year and the ISO week (from 1) of a date.\<close>

definition isocalendar :: "date \<Rightarrow> int \<times> int" where
  "isocalendar d =
     (let today = ymd2ord (year d) (month d) (day d);
          week = (today - isoweek1monday (year d)) div 7
      in if week < 0 then
           (year d - 1, (today - isoweek1monday (year d - 1)) div 7 + 1)
         else if week \<ge> 52 \<and> today \<ge> isoweek1monday (year d + 1) then (year d + 1, 1)
         else (year d, week + 1))"

definition iso_year :: "date \<Rightarrow> int" where
  "iso_year d = fst (isocalendar d)"

definition iso_week :: "date \<Rightarrow> int" where
  "iso_week d = snd (isocalendar d)"

definition digit_char :: "nat \<Rightarrow> char" where
  "digit_char n = ''0123456789'' ! n"

text \<open>The decimal digits of a natural number, as \<^verbatim>\<open>str\<close> prints them.\<close>

fun str_nat :: "nat \<Rightarrow> string" where
  "str_nat n = (if n < 10 then [digit_char n] else str_nat (n div 10) @ [digit_char (n mod 10)])"

definition str_int :: "int \<Rightarrow> string" where
  "str_int i = (if i < 0 then CHR ''-'' # str_nat (nat (- i)) else str_nat (nat i))"

text \<open>\<^verbatim>\<open>strftime('%V')\<close>: the ISO week, two digits.\<close>

definition strftime_V :: "date \<Rightarrow> string" where
  "strftime_V d = [digit_char (nat (iso_week d) div 10), digit_char (nat (iso_week d) mod 10)]"

section \<open>HelloFresh\<close>

record hellofresh =
  hf_base_url :: string
  hf_headers :: "(string \<times> string) list"
  hf_params :: "(string \<times> json) list"
  recipes :: "json list"

text \<open>The expression \<^verbatim>\<open>customer_res["items"][0]["id"]\<close>.\<close>

definition first_item_id :: "json \<Rightarrow> py_exc + json" where
  "first_item_id customer_res =
     (case getitem customer_res ''items'' of
        Inl x \<Rightarrow> Inl x
      | Inr items \<Rightarrow>
          (case getitem0 items of
             Inl x \<Rightarrow> Inl x
           | Inr item \<Rightarrow> getitem item ''id''))"

definition set_customer_id ::
  "'w server \<Rightarrow> hellofresh \<Rightarrow> 'w env \<Rightarrow> hellofresh outcome \<times> 'w env" where
  "set_customer_id srv hf e =
     (case json_request srv (hf_base_url hf @ ''/api/customers/me/subscriptions'', None)
             ''get'' (hf_headers hf) (hf_params hf) None e of
        (Return customer_res, e1) \<Rightarrow>
          (case first_item_id customer_res of
             Inl x \<Rightarrow> (Raise x, e1)
           | Inr i \<Rightarrow>
               (Return (hf\<lparr>hf_params := dict_set (hf_params hf) ''subscription'' i\<rparr>),
                logging DEBUG ''Adding customer ID to params'' [i] e1))
      | (Exit n, e1) \<Rightarrow> (Exit n, e1)
      | (Raise x, e1) \<Rightarrow> (Raise x, e1))"

text \<open>\<^verbatim>\<open>set_current_week\<close>, for the date that \<^verbatim>\<open>datetime.date.today()\<close> returns.\<close>

definition current_week :: "date \<Rightarrow> string" where
  "current_week today = str_int (year today) @ ''-W'' @ strftime_V today"

definition set_current_week :: "date \<Rightarrow> hellofresh \<Rightarrow> 'w env \<Rightarrow> hellofresh outcome \<times> 'w env" where
  "set_current_week today hf e =
     (Return (hf\<lparr>hf_params := dict_set (hf_params hf) ''from'' (JStr (current_week today))\<rparr>),
      logging DEBUG ''Setting from HTTP parameter to current date'' [] e)"

text \<open>The inner and the outer loop of \<^verbatim>\<open>add_monthly_recipes\<close>.\<close>

fun add_meals :: "json list \<Rightarrow> hellofresh \<Rightarrow> 'w env \<Rightarrow> hellofresh outcome \<times> 'w env" where
  "add_meals [] hf e = (Return hf, e)"
| "add_meals (meal # meals) hf e =
     (case getitem meal ''websiteURL'' of
        Inl x \<Rightarrow> (Raise x, e)
      | Inr u \<Rightarrow>
          (case set_add (recipes hf) u of
             Inl x \<Rightarrow> (Raise x, logging DEBUG ''Getting HelloFresh recipe URL: '' [u] e)
           | Inr rs \<Rightarrow>
               add_meals meals (hf\<lparr>recipes := rs\<rparr>)
                 (logging DEBUG ''Getting HelloFresh recipe URL: '' [u] e)))"

fun add_weeks :: "json list \<Rightarrow> hellofresh \<Rightarrow> 'w env \<Rightarrow> hellofresh outcome \<times> 'w env" where
  "add_weeks [] hf e = (Return hf, e)"
| "add_weeks (weekly_delivery # weeks) hf e =
     (case getitem weekly_delivery ''meals'' of
        Inl x \<Rightarrow> (Raise x, e)
      | Inr meals \<Rightarrow>
          (case iter meals of
             Inl x \<Rightarrow> (Raise x, e)
           | Inr ms \<Rightarrow>
               (case add_meals ms hf e of
                  (Return hf1, e1) \<Rightarrow> add_weeks weeks hf1 e1
                | (Exit n, e1) \<Rightarrow> (Exit n, e1)
                | (Raise x, e1) \<Rightarrow> (Raise x, e1))))"

definition add_monthly_recipes ::
  "json \<Rightarrow> hellofresh \<Rightarrow> 'w env \<Rightarrow> hellofresh outcome \<times> 'w env" where
  "add_monthly_recipes deliveries hf e =
     (case getitem deliveries ''weeks'' of
        Inl x \<Rightarrow> (Raise x, e)
      | Inr weeks \<Rightarrow>
          (case iter weeks of
             Inl x \<Rightarrow> (Raise x, e)
           | Inr ws \<Rightarrow> add_weeks ws hf e))"

text \<open>
  The \<^verbatim>\<open>while True\<close> loop of \<^verbatim>\<open>get_past_deliveries\<close>. It goes round again only
  after \<^verbatim>\<open>additional_deliveries > 0\<close> held and the counter went down by one.
\<close>

function past_deliveries_loop ::
  "'w server \<Rightarrow> int \<Rightarrow> hellofresh \<Rightarrow> 'w env \<Rightarrow> hellofresh outcome \<times> 'w env" where
  "past_deliveries_loop srv additional_deliveries hf e =
     (case json_request srv (hf_base_url hf @ ''/my-deliveries/past-deliveries'', None)
             ''get'' (hf_headers hf) (hf_params hf) None e of
        (Return most_recent_deliveries, e1) \<Rightarrow>
          (case add_monthly_recipes most_recent_deliveries hf e1 of
             (Return hf1, e2) \<Rightarrow>
               if additional_deliveries > 0 then
                 (case getitem most_recent_deliveries ''nextWeek'' of
                    Inl x \<Rightarrow>
                      if x = KeyError then
                        (Return hf1,
                         logging ERROR ''Asked to retrieve more months but no more deliveries found''
                           [JNum additional_deliveries]
                           (logging DEBUG ''Getting more previous deliveries'' [] e2))
                      else (Raise x, logging DEBUG ''Getting more previous deliveries'' [] e2)
                  | Inr next_week \<Rightarrow>
                      past_deliveries_loop srv (additional_deliveries - 1)
                        (hf1\<lparr>hf_params := dict_set (hf_params hf1) ''from'' next_week\<rparr>)
                        (logging DEBUG ''Getting more previous deliveries'' [] e2))
               else (Return hf1, e2)
           | (Exit n, e2) \<Rightarrow> (Exit n, e2)
           | (Raise x, e2) \<Rightarrow> (Raise x, e2))
      | (Exit n, e1) \<Rightarrow> (Exit n, e1)
      | (Raise x, e1) \<Rightarrow> (Raise x, e1))"
  by pat_completeness auto
termination
  by (relation "measure (\<lambda>(srv, a, hf, e). nat a)") auto

definition get_past_deliveries ::
  "'w server \<Rightarrow> int \<Rightarrow> hellofresh \<Rightarrow> 'w env \<Rightarrow> hellofresh outcome \<times> 'w env" where
  "get_past_deliveries srv additional_deliveries hf e =
     past_deliveries_loop srv additional_deliveries hf
       (logging DEBUG ''Getting last month deliveries'' [] e)"

section \<open>Mealie\<close>

text \<open>
  The attribute \<^verbatim>\<open>tag\<close> does not exist until \<^verbatim>\<open>create_tag\<close> or \<^verbatim>\<open>set_tag_id\<close> has
  assigned it; reading it before raises \<^verbatim>\<open>AttributeError\<close>.
\<close>

record mealie =
  m_base_url :: string
  m_headers :: "(string \<times> string) list"
  tag :: "json option"
  tagged_recipes :: "json list"

definition create_tag :: "'w server \<Rightarrow> string \<Rightarrow> mealie \<Rightarrow> 'w env \<Rightarrow> mealie outcome \<times> 'w env" where
  "create_tag srv t m e =
     (case json_request srv (m_base_url m @ ''/api/organizers/tags'', None)
             ''post'' (m_headers m) [] (Some (JObj [(''name'', JStr t)])) e of
        (Return r, e1) \<Rightarrow> (Return (m\<lparr>tag := Some r\<rparr>), logging DEBUG ''Tag has been created'' [JStr t] e1)
      | (Exit n, e1) \<Rightarrow> (Exit n, e1)
      | (Raise x, e1) \<Rightarrow> (Raise x, e1))"

definition set_tag_id :: "'w server \<Rightarrow> string \<Rightarrow> mealie \<Rightarrow> 'w env \<Rightarrow> mealie outcome \<times> 'w env" where
  "set_tag_id srv t m e =
     (case json_request srv (m_base_url m @ ''/api/organizers/tags'', None)
             ''get'' (m_headers m) [(''search'', JStr t)] None
             (logging DEBUG ''Getting tag infos'' [JStr t] e) of
        (Return tag_id_res, e1) \<Rightarrow>
          (case getitem tag_id_res ''items'' of
             Inl x \<Rightarrow> (Raise x, e1)
           | Inr items \<Rightarrow>
               if \<not> truthy items then
                 create_tag srv t m
                   (logging INFO ''Tag doesn't exist in Mealie, creating it'' [JStr t] e1)
               else
                 (case getitem0 items of
                    Inl x \<Rightarrow> (Raise x, e1)
                  | Inr first \<Rightarrow> (Return (m\<lparr>tag := Some first\<rparr>), e1)))
      | (Exit n, e1) \<Rightarrow> (Exit n, e1)
      | (Raise x, e1) \<Rightarrow> (Raise x, e1))"

text \<open>The set comprehension \<^verbatim>\<open>{recipe["orgURL"] for recipe in items}\<close>.\<close>

fun org_urls :: "json list \<Rightarrow> json list \<Rightarrow> py_exc + json list" where
  "org_urls [] acc = Inr acc"
| "org_urls (recipe # rest) acc =
     (case getitem recipe ''orgURL'' of
        Inl x \<Rightarrow> Inl x
      | Inr u \<Rightarrow> (case set_add acc u of Inl x \<Rightarrow> Inl x | Inr acc' \<Rightarrow> org_urls rest acc'))"

definition tagged_urls :: "json \<Rightarrow> py_exc + json list" where
  "tagged_urls tagged_recipes_res =
     (case getitem tagged_recipes_res ''items'' of
        Inl x \<Rightarrow> Inl x
      | Inr items \<Rightarrow> (case iter items of Inl x \<Rightarrow> Inl x | Inr rs \<Rightarrow> org_urls rs []))"

definition get_tagged_recipes ::
  "'w server \<Rightarrow> string \<Rightarrow> mealie \<Rightarrow> 'w env \<Rightarrow> mealie outcome \<times> 'w env" where
  "get_tagged_recipes srv t m e =
     then_do (set_tag_id srv t m) (\<lambda>m1.
       then_do (lift (case tag m1 of None \<Rightarrow> Inl AttributeError | Some tg \<Rightarrow> Inr tg)) (\<lambda>tg.
         then_do (json_request srv (m_base_url m1 @ ''/api/recipes'', None) ''get'' (m_headers m1)
                    [(''tags'', tg), (''perPage'', JNum 0)] None) (\<lambda>tagged_recipes_nb_res.
           then_do (lift (getitem tagged_recipes_nb_res ''total'')) (\<lambda>tagged_recipes_nb.
             then_do (json_request srv (m_base_url m1 @ ''/api/recipes'', None) ''get'' (m_headers m1)
                        [(''tags'', tg), (''perPage'', tagged_recipes_nb)] None) (\<lambda>tagged_recipes_res.
               then_do (lift (tagged_urls tagged_recipes_res)) (\<lambda>urls e'.
                 (Return (m1\<lparr>tagged_recipes := urls\<rparr>), e'))))))) e"

definition add_mealie_recipe :: "'w server \<Rightarrow> mealie \<Rightarrow> json \<Rightarrow> 'w env \<Rightarrow> json outcome \<times> 'w env" where
  "add_mealie_recipe srv m recipe_url e =
     json_request srv (m_base_url m @ ''/api/recipes/create/url'', None) ''post'' (m_headers m) []
       (Some (JObj [(''url'', recipe_url)]))
       (logging INFO ''Creating new recipe with url: '' [recipe_url] e)"

definition get_mealie_recipe :: "'w server \<Rightarrow> mealie \<Rightarrow> json \<Rightarrow> 'w env \<Rightarrow> json outcome \<times> 'w env" where
  "get_mealie_recipe srv m recipe_slug e =
     json_request srv (m_base_url m @ ''/api/recipes/'', Some recipe_slug) ''get'' (m_headers m) []
       None (logging DEBUG ''Getting newly created recipe ID'' [] e)"

text \<open>
  \<^verbatim>\<open>recipe_body["tags"].append(self.tag)\<close>: the subscript, then the method \<^verbatim>\<open>append\<close>,
  which only a list has, then the attribute \<^verbatim>\<open>tag\<close>. The list inside the document grows
  by one element at its end; nothing else of the document changes.
\<close>

definition append_tag :: "json \<Rightarrow> json option \<Rightarrow> py_exc + json" where
  "append_tag recipe_body tg =
     (case recipe_body of
        JObj kvs \<Rightarrow>
          (case map_of kvs ''tags'' of
             None \<Rightarrow> Inl KeyError
           | Some ts \<Rightarrow>
               (case ts of
                  JArr xs \<Rightarrow>
                    (case tg of
                       None \<Rightarrow> Inl AttributeError
                     | Some t \<Rightarrow> Inr (JObj (dict_set kvs ''tags'' (JArr (xs @ [t])))))
                | _ \<Rightarrow> Inl AttributeError))
      | _ \<Rightarrow> Inl TypeError)"

definition update_mealie_recipe :: "'w server \<Rightarrow> mealie \<Rightarrow> json \<Rightarrow> 'w env \<Rightarrow> unit outcome \<times> 'w env" where
  "update_mealie_recipe srv m recipe_slug e =
     (case get_mealie_recipe srv m recipe_slug e of
        (Return recipe_body, e1) \<Rightarrow>
          (case append_tag recipe_body (tag m) of
             Inl x \<Rightarrow> (Raise x, e1)
           | Inr patched \<Rightarrow>
               (case json_request srv (m_base_url m @ ''/api/recipes/'', Some recipe_slug) ''patch''
                       (m_headers m) [] (Some patched)
                       (logging DEBUG ''Patching recipe to add custom tag to it'' [] e1) of
                  (Return r, e2) \<Rightarrow> (Return (), e2)
                | (Exit n, e2) \<Rightarrow> (Exit n, e2)
                | (Raise x, e2) \<Rightarrow> (Raise x, e2)))
      | (Exit n, e1) \<Rightarrow> (Exit n, e1)
      | (Raise x, e1) \<Rightarrow> (Raise x, e1))"

section \<open>The driver\<close>

text \<open>The \<^verbatim>\<open>for\<close> loop at the end of \<^verbatim>\<open>main\<close>, over the elements of \<^verbatim>\<open>new_recipes\<close>.\<close>

fun import_recipes :: "'w server \<Rightarrow> mealie \<Rightarrow> json list \<Rightarrow> 'w env \<Rightarrow> unit outcome \<times> 'w env" where
  "import_recipes srv m [] e = (Return (), e)"
| "import_recipes srv m (new_recipe # rest) e =
     (case add_mealie_recipe srv m new_recipe e of
        (Return recipe_slug, e1) \<Rightarrow>
          (case update_mealie_recipe srv m recipe_slug e1 of
             (Return u, e2) \<Rightarrow> import_recipes srv m rest e2
           | (Exit n, e2) \<Rightarrow> (Exit n, e2)
           | (Raise x, e2) \<Rightarrow> (Raise x, e2))
      | (Exit n, e1) \<Rightarrow> (Exit n, e1)
      | (Raise x, e1) \<Rightarrow> (Raise x, e1))"

text \<open>\<^verbatim>\<open>{logging.info(recipe) for recipe in new_recipes}\<close>.\<close>

fun log_each :: "json list \<Rightarrow> 'w env \<Rightarrow> 'w env" where
  "log_each [] e = e"
| "log_each (recipe # rest) e = log_each rest (logging INFO [] [recipe] e)"

text \<open>
  The end of \<^verbatim>\<open>main\<close>, from the test of \<^verbatim>\<open>args.dry_run\<close> on: the two clients hold the
  set of source URLs and the set of URLs that carry the tag at the destination.
\<close>

definition new_recipes :: "hellofresh \<Rightarrow> mealie \<Rightarrow> json list" where
  "new_recipes hf m = set_diff (recipes hf) (tagged_recipes m)"

definition reconcile ::
  "'w server \<Rightarrow> bool \<Rightarrow> hellofresh \<Rightarrow> mealie \<Rightarrow> 'w env \<Rightarrow> unit outcome \<times> 'w env" where
  "reconcile srv dry_run hf m e =
     (if dry_run then
        (if length (new_recipes hf m) > 0 then
           (Exit 0,
            log_each (new_recipes hf m)
              (logging INFO ''Would have added recipes to Mealie:''
                 [JNum (int (length (new_recipes hf m)))] e))
         else (Exit 0, logging INFO ''All fetched recipes already exist in Mealie!'' [] e))
      else import_recipes srv m (new_recipes hf m) e)"

text \<open>
  \<^verbatim>\<open>main\<close> from the first request on. The two clients come from the constructors, with
  the command line and the environment read; \<open>today\<close> is the date of the run.
\<close>

definition main ::
  "'w server \<Rightarrow> date \<Rightarrow> int \<Rightarrow> string \<Rightarrow> bool \<Rightarrow> hellofresh \<Rightarrow> mealie \<Rightarrow> 'w env \<Rightarrow>
     unit outcome \<times> 'w env" where
  "main srv today additional_deliveries mealie_tag dry_run hf m e =
     then_do (set_customer_id srv hf) (\<lambda>hf1.
       then_do (set_current_week today hf1) (\<lambda>hf2.
         then_do (get_past_deliveries srv additional_deliveries hf2) (\<lambda>hf3 e3.
           then_do (get_tagged_recipes srv mealie_tag m) (\<lambda>m1.
             reconcile srv dry_run hf3 m1)
             (logging INFO ''Scrapped HelloFresh recipes'' [JNum (int (length (recipes hf3)))] e3)))) e"

section \<open>What a run shows\<close>

text \<open>The exchanges made between two states of a run.\<close>

definition calls_since :: "'w env \<Rightarrow> 'w env \<Rightarrow> (request \<times> http_reply) list" where
  "calls_since e e' = drop (length (trace e)) (trace e')"

text \<open>The POST exchanges and the PATCH exchanges among some exchanges.\<close>

definition posts :: "(request \<times> http_reply) list \<Rightarrow> (request \<times> http_reply) list" where
  "posts tr = filter (\<lambda>x. http_method (fst x) = ''post'') tr"

definition patches :: "(request \<times> http_reply) list \<Rightarrow> (request \<times> http_reply) list" where
  "patches tr = filter (\<lambda>x. http_method (fst x) = ''patch'') tr"

text \<open>The document that a reply carries.\<close>

definition reply_body :: "http_reply \<Rightarrow> json option" where
  "reply_body rp = (case rp of ConnFail \<Rightarrow> None | Reply st body \<Rightarrow> body)"

text \<open>
  The URLs of a delivery page, read off the document: the \<^verbatim>\<open>websiteURL\<close> of every meal
  of every week. A missing field and a value that is no list contribute nothing.
\<close>

definition field :: "json \<Rightarrow> string \<Rightarrow> json list" where
  "field v k =
     (case v of
        JObj kvs \<Rightarrow> (case map_of kvs k of None \<Rightarrow> [] | Some x \<Rightarrow> [x])
      | _ \<Rightarrow> [])"

definition elements :: "json \<Rightarrow> json list" where
  "elements v = (case v of JArr xs \<Rightarrow> xs | _ \<Rightarrow> [])"

definition meal_urls :: "json list \<Rightarrow> json list" where
  "meal_urls meals = concat (map (\<lambda>meal. field meal ''websiteURL'') meals)"

definition week_urls :: "json list \<Rightarrow> json list" where
  "week_urls weeks =
     concat (map (\<lambda>week. meal_urls (concat (map elements (field week ''meals'')))) weeks)"

definition page_urls :: "json \<Rightarrow> json list" where
  "page_urls page = week_urls (concat (map elements (field page ''weeks'')))"

text \<open>The documents received in some exchanges, and the URLs on them.\<close>

definition pages :: "(request \<times> http_reply) list \<Rightarrow> json list" where
  "pages tr = concat (map (\<lambda>x. case reply_body (snd x) of None \<Rightarrow> [] | Some j \<Rightarrow> [j]) tr)"

definition visited_urls :: "'w env \<Rightarrow> 'w env \<Rightarrow> json list" where
  "visited_urls e e' = concat (map page_urls (pages (calls_since e e')))"

text \<open>
  \<open>accumulates rs us rs'\<close>: the set \<open>rs'\<close> is the set \<open>rs\<close> with the values \<open>us\<close> added.
\<close>

definition accumulates :: "json list \<Rightarrow> json list \<Rightarrow> json list \<Rightarrow> bool" where
  "accumulates rs us rs' =
     (py_key ` set rs' = py_key ` (set rs \<union> set us)
      \<and> set rs' \<subseteq> set rs \<union> set us
      \<and> (distinct (map py_key rs) \<longrightarrow> distinct (map py_key rs')))"

text \<open>The two requests of \<^verbatim>\<open>set_tag_id\<close> and \<^verbatim>\<open>create_tag\<close> for a tag name.\<close>

definition search_request :: "mealie \<Rightarrow> string \<Rightarrow> request" where
  "search_request m t =
     request_of (m_base_url m @ ''/api/organizers/tags'', None) ''get'' (m_headers m)
       [(''search'', JStr t)] None"

definition create_request :: "mealie \<Rightarrow> string \<Rightarrow> request" where
  "create_request m t =
     request_of (m_base_url m @ ''/api/organizers/tags'', None) ''post'' (m_headers m) []
       (Some (JObj [(''name'', JStr t)]))"

text \<open>What a search for the tag name finds in a state of the destination.\<close>

definition search_items :: "'w server \<Rightarrow> mealie \<Rightarrow> string \<Rightarrow> 'w \<Rightarrow> json option" where
  "search_items srv m t w =
     (case reply_body (fst (srv w (search_request m t))) of
        None \<Rightarrow> None
      | Some body \<Rightarrow> (case getitem body ''items'' of Inl x \<Rightarrow> None | Inr items \<Rightarrow> Some items))"

section \<open>Example services and states\<close>

text \<open>A service that answers every request with status 300 and the body \<^verbatim>\<open>null\<close>.\<close>

definition srv_300 :: "unit server" where
  "srv_300 w rq = (Reply 300 (Some JNull), w)"

text \<open>A service that answers every request with status 404 and no JSON body.\<close>

definition srv_404 :: "unit server" where
  "srv_404 w rq = (Reply 404 None, w)"

definition env0 :: "unit env" where
  "env0 = \<lparr>world = (), trace = [], logs = []\<rparr>"

text \<open>A source client that holds the URLs A, B, C and a destination client that holds B.\<close>

definition hf_abc :: hellofresh where
  "hf_abc = \<lparr>hf_base_url = ''https://hf'', hf_headers = [], hf_params = [],
     recipes = [JStr ''A'', JStr ''B'', JStr ''C'']\<rparr>"

definition mealie_b :: mealie where
  "mealie_b = \<lparr>m_base_url = ''https://mealie'', m_headers = [], tag = Some (JObj [(''name'', JStr ''HelloFresh'')]),
     tagged_recipes = [JStr ''B'']\<rparr>"

text \<open>A fresh source client, and services that answer with no subscription and with two.\<close>

definition hf0 :: hellofresh where
  "hf0 = \<lparr>hf_base_url = ''https://hf'', hf_headers = [],
     hf_params = [(''country'', JStr ''FR''), (''locale'', JStr ''fr-FR'')], recipes = []\<rparr>"

definition srv_no_subscription :: "unit server" where
  "srv_no_subscription w rq = (Reply 200 (Some (JObj [(''items'', JArr [])])), w)"

definition srv_subscription :: "unit server" where
  "srv_subscription w rq =
     (Reply 200 (Some (JObj [(''items'', JArr [JObj [(''id'', JNum 42)], JObj [(''id'', JNum 99)]])])), w)"

text \<open>A tag, a service that answers with a recipe that carries it, and a client that holds it.\<close>

definition tag_hf :: json where
  "tag_hf = JObj [(''id'', JStr ''t1''), (''name'', JStr ''HelloFresh'')]"

definition srv_recipe :: "unit server" where
  "srv_recipe w rq = (Reply 200 (Some (JObj [(''name'', JStr ''Soup''), (''tags'', JArr [tag_hf])])), w)"

definition mealie_hf :: mealie where
  "mealie_hf = \<lparr>m_base_url = ''https://mealie'', m_headers = [], tag = Some tag_hf, tagged_recipes = []\<rparr>"

text \<open>Monday 30 December 2024, in the first ISO week of 2025.\<close>

definition monday_30_dec_2024 :: date where
  "monday_30_dec_2024 = \<lparr>year = 2024, month = 12, day = 30\<rparr>"

text \<open>
  A service that creates a recipe for every POST, answers a GET with a recipe that has
  no tag, and accepts a PATCH.
\<close>

definition srv_import :: "unit server" where
  "srv_import w rq =
     (if http_method rq = ''post'' then (Reply 201 (Some (JStr ''soup'')), w)
      else (Reply 200 (Some (JObj [(''name'', JStr ''Soup''), (''tags'', JArr [])])), w))"

definition hf_a :: hellofresh where
  "hf_a = \<lparr>hf_base_url = ''https://hf'', hf_headers = [], hf_params = [], recipes = [JStr ''A'']\<rparr>"

text \<open>
  Two delivery pages: the first has two weeks, one URL on both of them, and a cursor;
  the second has one week and no cursor. A service that answers with the first page,
  then with the second, and one that answers with the second only.
\<close>

definition page_first :: json where
  "page_first =
     JObj [(''weeks'',
            JArr [JObj [(''meals'', JArr [JObj [(''websiteURL'', JStr ''u1'')]])],
                  JObj [(''meals'', JArr [JObj [(''websiteURL'', JStr ''u1'')],
                                          JObj [(''websiteURL'', JStr ''u2'')]])]]),
           (''nextWeek'', JStr ''2024-W48'')]"

definition page_last :: json where
  "page_last = JObj [(''weeks'', JArr [JObj [(''meals'', JArr [JObj [(''websiteURL'', JStr ''u3'')]])]])]"

definition srv_pages :: "nat server" where
  "srv_pages w rq = (Reply 200 (Some (if w = 0 then page_first else page_last)), Suc w)"

definition env_pages :: "nat env" where
  "env_pages = \<lparr>world = 0, trace = [], logs = []\<rparr>"

definition srv_last_page :: "unit server" where
  "srv_last_page w rq = (Reply 200 (Some page_last), w)"

text \<open>
  A tag store: its state is the list of its tags. A GET lists them all, a POST adds a
  tag made of a fresh identifier and the fields sent, and answers with it.
\<close>

definition srv_tags :: "json list server" where
  "srv_tags w rq =
     (if http_method rq = ''post'' then
        (case data rq of
           Some (JObj kvs) \<Rightarrow>
             (Reply 201 (Some (JObj ((''id'', JNum (int (length w))) # kvs))),
              w @ [JObj ((''id'', JNum (int (length w))) # kvs)])
         | _ \<Rightarrow> (Reply 422 None, w))
      else (Reply 200 (Some (JObj [(''items'', JArr w)])), w))"

definition env_no_tags :: "json list env" where
  "env_no_tags = \<lparr>world = [], trace = [], logs = []\<rparr>"

definition mealie0 :: mealie where
  "mealie0 = \<lparr>m_base_url = ''https://mealie'', m_headers = [], tag = None, tagged_recipes = []\<rparr>"

definition tag_created :: json where
  "tag_created = JObj [(''id'', JNum 0), (''name'', JStr ''HelloFresh'')]"

text \<open>
  The two services together, for a whole run: the source has one subscription and one
  page of deliveries, the destination is the tag store and holds no recipe.
\<close>

definition srv_both :: "json list server" where
  "srv_both w rq =
     (if fst (url rq) = ''https://hf/api/customers/me/subscriptions'' then
        (Reply 200 (Some (JObj [(''items'', JArr [JObj [(''id'', JNum 42)]])])), w)
      else if fst (url rq) = ''https://hf/my-deliveries/past-deliveries'' then
        (Reply 200 (Some page_last), w)
      else if fst (url rq) = ''https://mealie/api/organizers/tags'' then srv_tags w rq
      else (Reply 200 (Some (JObj [(''total'', JNum 0), (''items'', JArr [])])), w))"

section \<open>Properties of the HTTP wrapper\<close>

lemma json_request_supported:
  "supported m \<Longrightarrow> json_request srv u m hs ps d e = send srv (request_of u m hs ps d) e"
  by (auto simp: supported_def json_request_def request_of_def)

lemma json_request_unsupported:
  "\<not> supported m \<Longrightarrow>
     json_request srv u m hs ps d e
       = (Exit 1, logging ERROR ''Non supported/incorrect HTTP verb: '' [JStr m] e)"
  by (auto simp: supported_def json_request_def)

lemma send_trace:
  "send srv rq e = (r, e') \<Longrightarrow>
     trace e' = trace e @ [(rq, fst (srv (world e) rq))] \<and> world e' = snd (srv (world e) rq)"
  by (auto simp: send_def logging_def Let_def split: prod.splits http_reply.splits if_splits option.splits)

lemma send_result:
  "send srv rq e = (r, e') \<Longrightarrow>
     (case fst (srv (world e) rq) of
        ConnFail \<Rightarrow> r = Exit 1 \<and> logs e' = logs e @ [(ERROR, ''Request error'', [])]
      | Reply st body \<Rightarrow>
          if raise_for_status st then r = Exit 1 \<and> logs e' = logs e @ [(ERROR, ''Request error'', [])]
          else (case body of
                  None \<Rightarrow> r = Exit 1 \<and> logs e' = logs e @ [(ERROR, ''Error decoding response as JSON'', [])]
                | Some j \<Rightarrow> r = Return j \<and> logs e' = logs e))"
  by (auto simp: send_def logging_def Let_def split: prod.splits http_reply.splits if_splits option.splits)

text \<open>
  C7, as the code has it. A request with a method other than \<^verbatim>\<open>get\<close>, \<^verbatim>\<open>post\<close>, \<^verbatim>\<open>patch\<close>
  is not sent: the error is logged and the process exits with code 1. A supported
  request is sent exactly once. No response, a status from 400 to 599 and a body that
  is no JSON each log an error and exit with code 1; a response with any other status
  and a JSON body returns that body. After an exit nothing that follows runs, so no
  further request is made.
\<close>

theorem json_request_fail_fast:
  assumes "json_request srv u m hs ps d e = (r, e')"
  shows "(if supported m then
            trace e' = trace e @ [(request_of u m hs ps d, fst (srv (world e) (request_of u m hs ps d)))]
            \<and> (case fst (srv (world e) (request_of u m hs ps d)) of
                 ConnFail \<Rightarrow> r = Exit 1 \<and> logs e' = logs e @ [(ERROR, ''Request error'', [])]
               | Reply st body \<Rightarrow>
                   if raise_for_status st then
                     r = Exit 1 \<and> logs e' = logs e @ [(ERROR, ''Request error'', [])]
                   else (case body of
                           None \<Rightarrow> r = Exit 1 \<and>
                             logs e' = logs e @ [(ERROR, ''Error decoding response as JSON'', [])]
                         | Some j \<Rightarrow> r = Return j \<and> logs e' = logs e))
          else r = Exit 1 \<and> trace e' = trace e \<and> world e' = world e
            \<and> logs e' = logs e @ [(ERROR, ''Non supported/incorrect HTTP verb: '', [JStr m])])
         \<and> (\<forall>n. r = Exit n \<longrightarrow> then_do (json_request srv u m hs ps d) k e = (Exit n, e'))"
proof -
  have cont: "\<forall>n. r = Exit n \<longrightarrow> then_do (json_request srv u m hs ps d) k e = (Exit n, e')"
    using assms by (simp add: then_do_def)
  show ?thesis
  proof (cases "supported m")
    case True
    with assms have s: "send srv (request_of u m hs ps d) e = (r, e')"
      by (simp add: json_request_supported)
    from send_trace [OF s] send_result [OF s] True cont show ?thesis by simp
  next
    case False
    with assms cont show ?thesis
      by (auto simp: json_request_unsupported logging_def)
  qed
qed

theorem json_request_fail_fast_witness:
  "json_request srv_404 (''https://mealie/api/recipes'', None) ''get'' [] [] None env0
     = (Exit 1, \<lparr>world = (),
          trace = [(request_of (''https://mealie/api/recipes'', None) ''get'' [] [] None, Reply 404 None)],
          logs = [(ERROR, ''Request error'', [])]\<rparr>)
   \<and> then_do (json_request srv_404 (''https://mealie/api/recipes'', None) ''get'' [] [] None)
        (\<lambda>j. json_request srv_404 (''https://mealie/api/recipes'', None) ''get'' [] [] None) env0
     = (Exit 1, \<lparr>world = (),
          trace = [(request_of (''https://mealie/api/recipes'', None) ''get'' [] [] None, Reply 404 None)],
          logs = [(ERROR, ''Request error'', [])]\<rparr>)"
proof -
  have h: "json_request srv_404 (''https://mealie/api/recipes'', None) ''get'' [] [] None env0
     = (Exit 1, \<lparr>world = (),
          trace = [(request_of (''https://mealie/api/recipes'', None) ''get'' [] [] None, Reply 404 None)],
          logs = [(ERROR, ''Request error'', [])]\<rparr>)"
    by (simp add: json_request_def send_def srv_404_def env0_def raise_for_status_def
          logging_def request_of_def)
  from json_request_fail_fast [OF h,
      of "\<lambda>j. json_request srv_404 (''https://mealie/api/recipes'', None) ''get'' [] [] None"] h
  show ?thesis by simp
qed

text \<open>
  A response with status 300 and a JSON body is returned as a value: a status outside
  200 to 299 does not always end the process.
\<close>

theorem non_2xx_returns_counterexample:
  "fst (json_request srv_300 (''https://mealie/api/recipes'', None) ''get'' [] [] None env0)
     = Return JNull"
  by (simp add: json_request_def send_def srv_300_def env0_def raise_for_status_def)

section \<open>Properties of the reconciliation\<close>

lemma set_member_diff:
  "set_member u (set_diff xs ys) = (set_member u xs \<and> \<not> set_member u ys)"
proof -
  have "py_key u \<in> py_key ` {x \<in> set xs. py_key x \<notin> py_key ` set ys}
          \<longleftrightarrow> py_key u \<in> py_key ` set xs \<and> py_key u \<notin> py_key ` set ys"
    by (metis (mono_tags, lifting) image_iff mem_Collect_eq)
  then show ?thesis
    by (simp add: set_member_def set_diff_def)
qed

text \<open>
  C1. A URL is in the missing set exactly when it is in the source set and not in the
  set tagged at the destination, membership being Python's; the elements of the missing
  set are those of the source set without the tagged ones, whatever the order in which
  the two sets are listed.
\<close>

theorem new_recipes_is_difference:
  "set_member u (new_recipes hf m)
     = (set_member u (recipes hf) \<and> \<not> set_member u (tagged_recipes m))
   \<and> set (new_recipes hf m) = set (recipes hf) - {x. set_member x (tagged_recipes m)}"
proof
  show "set_member u (new_recipes hf m)
          = (set_member u (recipes hf) \<and> \<not> set_member u (tagged_recipes m))"
    by (simp add: new_recipes_def set_member_diff)
  show "set (new_recipes hf m) = set (recipes hf) - {x. set_member x (tagged_recipes m)}"
    by (auto simp: new_recipes_def set_diff_def)
qed

theorem new_recipes_is_difference_witness:
  "new_recipes hf_abc mealie_b = [JStr ''A'', JStr ''C'']
   \<and> set (new_recipes hf_abc mealie_b) = {JStr ''A'', JStr ''B'', JStr ''C''} - {x. set_member x [JStr ''B'']}"
proof -
  have "new_recipes hf_abc mealie_b = [JStr ''A'', JStr ''C'']"
    by (simp add: new_recipes_def set_diff_def set_member_def py_key_def hf_abc_def mealie_b_def)
  moreover have "set (new_recipes hf_abc mealie_b) = {JStr ''A'', JStr ''B'', JStr ''C''} - {x. set_member x [JStr ''B'']}"
    using new_recipes_is_difference [of "JStr ''A''" hf_abc mealie_b]
    by (simp add: hf_abc_def mealie_b_def)
  ultimately show ?thesis by simp
qed

lemma log_each_frame: "trace (log_each xs e) = trace e \<and> world (log_each xs e) = world e"
  by (induction xs arbitrary: e) (auto simp: logging_def)

text \<open>
  From the test of \<^verbatim>\<open>args.dry_run\<close> on, a dry run sends no request at all, whatever the
  two sets are: the exchanges and the state of the services are as before, and the
  process exits with code 0.
\<close>

lemma dry_run_branch_no_calls:
  "fst (reconcile srv True hf m e) = Exit 0
   \<and> trace (snd (reconcile srv True hf m e)) = trace e
   \<and> world (snd (reconcile srv True hf m e)) = world e"
  by (simp add: reconcile_def log_each_frame) (simp add: logging_def)

text \<open>
  C5 at a destination that does not have the tag yet. \<^verbatim>\<open>main\<close> resolves the tag before
  it tests \<^verbatim>\<open>args.dry_run\<close>, and \<^verbatim>\<open>set_tag_id\<close> creates the tag when the search finds
  nothing: the dry run exits with code 0 after six requests, the fourth of them the POST
  that creates the tag, and the destination, empty before, holds the tag after.
\<close>

theorem dry_run_creates_tag:
  "fst (main srv_both monday_30_dec_2024 0 ''HelloFresh'' True hf0 mealie0 env_no_tags) = Exit 0
   \<and> world env_no_tags = []
   \<and> world (snd (main srv_both monday_30_dec_2024 0 ''HelloFresh'' True hf0 mealie0 env_no_tags))
       = [tag_created]
   \<and> map (\<lambda>x. http_method (fst x))
        (trace (snd (main srv_both monday_30_dec_2024 0 ''HelloFresh'' True hf0 mealie0 env_no_tags)))
       = [''get'', ''get'', ''get'', ''post'', ''get'', ''get'']"
  by (simp add: main_def then_do_def lift_def set_customer_id_def first_item_id_def
        set_current_week_def get_past_deliveries_def add_monthly_recipes_def page_last_def
        get_tagged_recipes_def set_tag_id_def create_tag_def tagged_urls_def reconcile_def
        new_recipes_def set_diff_def set_member_def set_add_def hashable_def json_request_def
        send_def raise_for_status_def srv_both_def srv_tags_def getitem_def getitem0_def iter_def
        truthy_def logging_def hf0_def mealie0_def env_no_tags_def tag_created_def)

section \<open>Properties of the source client\<close>

lemma map_of_dict_set: "map_of (dict_set kvs k v) = (map_of kvs)(k \<mapsto> v)"
  by (induction kvs) (auto simp: fun_eq_iff)

lemma keys_dict_set: "map_of kvs k = Some old \<Longrightarrow> map fst (dict_set kvs k v) = map fst kvs"
  by (induction kvs) (auto split: if_splits)

lemma json_request_Return_logs:
  "json_request srv u m hs ps d e = (Return j, e1) \<Longrightarrow> logs e1 = logs e"
  by (auto simp: json_request_def send_def logging_def Let_def
           split: if_splits prod.splits http_reply.splits option.splits)

lemma first_item_id_Inl:
  "first_item_id res = Inl x \<Longrightarrow> x = KeyError \<or> x = IndexError \<or> x = TypeError"
  by (auto simp: first_item_id_def getitem_def getitem0_def
           split: json.splits option.splits list.splits sum.splits)

lemma first_item_id_shape:
  "first_item_id res = Inr i
     \<longleftrightarrow> (\<exists>kvs ikvs rest. res = JObj kvs \<and> map_of kvs ''items'' = Some (JArr (JObj ikvs # rest))
            \<and> map_of ikvs ''id'' = Some i)"
  by (auto simp: first_item_id_def getitem_def getitem0_def
           split: json.splits option.splits list.splits sum.splits)

text \<open>
  C8, as the code has it. When the subscription list arrives as a dictionary whose
  \<^verbatim>\<open>items\<close> is a list that starts with a dictionary with an \<^verbatim>\<open>id\<close>, \<^verbatim>\<open>set_customer_id\<close>
  stores that identifier, the one of the first entry, under \<^verbatim>\<open>subscription\<close> in the
  query parameters and changes nothing else of the client. On any other response the
  subscript expression raises \<^verbatim>\<open>KeyError\<close>, \<^verbatim>\<open>IndexError\<close> or \<^verbatim>\<open>TypeError\<close>, which nothing
  catches: the wrapper's handlers are not involved and no record is logged.
\<close>

theorem set_customer_id_shape:
  assumes "json_request srv (hf_base_url hf @ ''/api/customers/me/subscriptions'', None) ''get''
             (hf_headers hf) (hf_params hf) None e = (Return res, e1)"
  shows "(\<forall>kvs ikvs rest i.
            res = JObj kvs \<and> map_of kvs ''items'' = Some (JArr (JObj ikvs # rest))
            \<and> map_of ikvs ''id'' = Some i \<longrightarrow>
            set_customer_id srv hf e
              = (Return (hf\<lparr>hf_params := dict_set (hf_params hf) ''subscription'' i\<rparr>),
                 logging DEBUG ''Adding customer ID to params'' [i] e1)
            \<and> map_of (dict_set (hf_params hf) ''subscription'' i)
                = (map_of (hf_params hf))(''subscription'' \<mapsto> i))
       \<and> ((\<nexists>kvs ikvs rest i.
              res = JObj kvs \<and> map_of kvs ''items'' = Some (JArr (JObj ikvs # rest))
              \<and> map_of ikvs ''id'' = Some i) \<longrightarrow>
            (\<exists>x. set_customer_id srv hf e = (Raise x, e1)
               \<and> (x = KeyError \<or> x = IndexError \<or> x = TypeError))
            \<and> logs e1 = logs e)
       \<and> (\<forall>i. first_item_id res = Inr i
            \<longleftrightarrow> (\<exists>kvs ikvs rest. res = JObj kvs
                   \<and> map_of kvs ''items'' = Some (JArr (JObj ikvs # rest))
                   \<and> map_of ikvs ''id'' = Some i))"
proof (intro conjI allI impI)
  fix kvs ikvs rest i
  assume "res = JObj kvs \<and> map_of kvs ''items'' = Some (JArr (JObj ikvs # rest))
            \<and> map_of ikvs ''id'' = Some i"
  then have "first_item_id res = Inr i" by (auto simp: first_item_id_shape)
  with assms show "set_customer_id srv hf e
              = (Return (hf\<lparr>hf_params := dict_set (hf_params hf) ''subscription'' i\<rparr>),
                 logging DEBUG ''Adding customer ID to params'' [i] e1)"
    by (simp add: set_customer_id_def)
next
  fix i
  show "map_of (dict_set (hf_params hf) ''subscription'' i)
          = (map_of (hf_params hf))(''subscription'' \<mapsto> i)"
    by (rule map_of_dict_set)
next
  assume n: "\<nexists>kvs ikvs rest i.
              res = JObj kvs \<and> map_of kvs ''items'' = Some (JArr (JObj ikvs # rest))
              \<and> map_of ikvs ''id'' = Some i"
  have "\<nexists>i. first_item_id res = Inr i"
  proof
    assume "\<exists>i. first_item_id res = Inr i"
    then obtain i where "first_item_id res = Inr i" ..
    then have "\<exists>kvs ikvs rest. res = JObj kvs
                   \<and> map_of kvs ''items'' = Some (JArr (JObj ikvs # rest))
                   \<and> map_of ikvs ''id'' = Some i"
      by (simp only: first_item_id_shape)
    with n show False by blast
  qed
  then obtain x where x: "first_item_id res = Inl x" by (cases "first_item_id res") auto
  with assms have "set_customer_id srv hf e = (Raise x, e1)"
    by (simp add: set_customer_id_def)
  with first_item_id_Inl [OF x]
  show "\<exists>x. set_customer_id srv hf e = (Raise x, e1)
               \<and> (x = KeyError \<or> x = IndexError \<or> x = TypeError)" by blast
next
  from assms show "logs e1 = logs e" by (rule json_request_Return_logs)
next
  fix i
  show "first_item_id res = Inr i
            \<longleftrightarrow> (\<exists>kvs ikvs rest. res = JObj kvs
                   \<and> map_of kvs ''items'' = Some (JArr (JObj ikvs # rest))
                   \<and> map_of ikvs ''id'' = Some i)"
    by (rule first_item_id_shape)
qed

theorem set_customer_id_shape_witness:
  "fst (set_customer_id srv_subscription hf0 env0)
     = Return (hf0\<lparr>hf_params := [(''country'', JStr ''FR''), (''locale'', JStr ''fr-FR''),
                                   (''subscription'', JNum 42)]\<rparr>)
   \<and> fst (set_customer_id srv_no_subscription hf0 env0) = Raise IndexError
   \<and> logs (snd (set_customer_id srv_no_subscription hf0 env0)) = []"
proof -
  let ?j = "json_request srv_subscription (hf_base_url hf0 @ ''/api/customers/me/subscriptions'', None)
             ''get'' (hf_headers hf0) (hf_params hf0) None env0"
  let ?res = "JObj [(''items'', JArr [JObj [(''id'', JNum 42)], JObj [(''id'', JNum 99)]])]"
  have "fst ?j = Return ?res"
    by (simp add: json_request_def send_def srv_subscription_def env0_def raise_for_status_def)
  then have h: "?j = (Return ?res, snd ?j)" by (metis prod.collapse)
  have shape: "?res = JObj [(''items'', JArr [JObj [(''id'', JNum 42)], JObj [(''id'', JNum 99)]])]
      \<and> map_of [(''items'', JArr [JObj [(''id'', JNum 42)], JObj [(''id'', JNum 99)]])] ''items''
          = Some (JArr (JObj [(''id'', JNum 42)] # [JObj [(''id'', JNum 99)]]))
      \<and> map_of [(''id'', JNum 42)] ''id'' = Some (JNum 42)"
    by simp
  from set_customer_id_shape [OF h] shape
  have "set_customer_id srv_subscription hf0 env0
          = (Return (hf0\<lparr>hf_params := dict_set (hf_params hf0) ''subscription'' (JNum 42)\<rparr>),
             logging DEBUG ''Adding customer ID to params'' [JNum 42] (snd ?j))"
    by blast
  then have first: "fst (set_customer_id srv_subscription hf0 env0)
     = Return (hf0\<lparr>hf_params := [(''country'', JStr ''FR''), (''locale'', JStr ''fr-FR''),
                                   (''subscription'', JNum 42)]\<rparr>)"
    by (simp add: hf0_def)
  let ?k = "json_request srv_no_subscription (hf_base_url hf0 @ ''/api/customers/me/subscriptions'', None)
             ''get'' (hf_headers hf0) (hf_params hf0) None env0"
  have "fst ?k = Return (JObj [(''items'', JArr [])])"
    by (simp add: json_request_def send_def srv_no_subscription_def env0_def raise_for_status_def)
  then have k: "?k = (Return (JObj [(''items'', JArr [])]), snd ?k)" by (metis prod.collapse)
  have none: "\<nexists>kvs ikvs rest i.
              JObj [(''items'', JArr [])] = JObj kvs
              \<and> map_of kvs ''items'' = Some (JArr (JObj ikvs # rest))
              \<and> map_of ikvs ''id'' = Some i"
    by auto
  have l: "logs (snd ?k) = []"
    by (simp add: json_request_def send_def srv_no_subscription_def env0_def raise_for_status_def)
  from set_customer_id_shape [OF k] none obtain x where
    r: "set_customer_id srv_no_subscription hf0 env0 = (Raise x, snd ?k)" by blast
  have "fst (set_customer_id srv_no_subscription hf0 env0) = Raise IndexError"
    by (simp add: set_customer_id_def json_request_def send_def srv_no_subscription_def hf0_def
          env0_def raise_for_status_def first_item_id_def getitem_def getitem0_def)
  with r l first show ?thesis by simp
qed

text \<open>
  On a response with an empty \<^verbatim>\<open>items\<close> list the outcome is an uncaught
  \<^verbatim>\<open>IndexError\<close> with nothing logged, not the wrapper's \<^verbatim>\<open>exit(1)\<close>.
\<close>

theorem shape_error_not_wrapper_counterexample:
  "fst (set_customer_id srv_no_subscription hf0 env0) = Raise IndexError
   \<and> logs (snd (set_customer_id srv_no_subscription hf0 env0)) = []"
  by (simp add: set_customer_id_def json_request_def send_def srv_no_subscription_def hf0_def env0_def
        raise_for_status_def first_item_id_def getitem_def getitem0_def)

text \<open>
  C4 at Monday 30 December 2024. The ISO year of that date is 2025 and its ISO week is 1;
  \<^verbatim>\<open>set_current_week\<close> joins the calendar year \<^verbatim>\<open>today.year\<close> to the ISO week and sets
  the cursor to 2024-W01.
\<close>

theorem current_week_calendar_year:
  "valid_date monday_30_dec_2024
   \<and> iso_year monday_30_dec_2024 = 2025 \<and> iso_week monday_30_dec_2024 = 1
   \<and> current_week monday_30_dec_2024 = ''2024-W01''
   \<and> map_of (hf_params (case fst (set_current_week monday_30_dec_2024 hf0 env0) of Return hf \<Rightarrow> hf | _ \<Rightarrow> hf0)) ''from''
       = Some (JStr ''2024-W01'')"
  by code_simp

section \<open>Properties of the destination client and of the driver\<close>

lemma json_request_Return:
  "json_request srv u m hs ps d e = (Return j, e1) \<Longrightarrow>
     \<exists>st. trace e1 = trace e @ [(request_of u m hs ps d, Reply st (Some j))]
          \<and> fst (srv (world e) (request_of u m hs ps d)) = Reply st (Some j)"
  by (auto simp: json_request_def send_def logging_def Let_def request_of_def
           split: if_splits prod.splits http_reply.splits option.splits)

lemma json_request_trace:
  "supported m \<Longrightarrow>
     trace (snd (json_request srv u m hs ps d e))
       = trace e @ [(request_of u m hs ps d, fst (srv (world e) (request_of u m hs ps d)))]"
  by (auto simp: json_request_supported send_def logging_def Let_def
           split: if_splits prod.splits http_reply.splits option.splits)

lemma logging_frame [simp]:
  "trace (logging l msg vs e) = trace e" "world (logging l msg vs e) = world e"
  by (simp_all add: logging_def)

text \<open>
  C10. When the fetched recipe is a dictionary whose \<^verbatim>\<open>tags\<close> is a list and the client
  holds a tag, \<^verbatim>\<open>update_mealie_recipe\<close> sends one PATCH for the same recipe whose body is
  the fetched document with \<^verbatim>\<open>tags\<close> replaced by the old list followed by the tag: every
  other field has its value, the fields keep their order, and the tag occurs once more
  than before, also when it was there already.
\<close>

theorem update_appends_tag:
  assumes "get_mealie_recipe srv m slug e = (Return (JObj kvs), e1)"
    and "map_of kvs ''tags'' = Some (JArr ts)"
    and "tag m = Some t"
  shows "trace (snd (update_mealie_recipe srv m slug e))
           = trace e1 @
             [(request_of (m_base_url m @ ''/api/recipes/'', Some slug) ''patch'' (m_headers m) []
                 (Some (JObj (dict_set kvs ''tags'' (JArr (ts @ [t]))))),
               fst (srv (world e1)
                 (request_of (m_base_url m @ ''/api/recipes/'', Some slug) ''patch'' (m_headers m) []
                   (Some (JObj (dict_set kvs ''tags'' (JArr (ts @ [t]))))))))]
       \<and> map_of (dict_set kvs ''tags'' (JArr (ts @ [t]))) = (map_of kvs)(''tags'' \<mapsto> JArr (ts @ [t]))
       \<and> map fst (dict_set kvs ''tags'' (JArr (ts @ [t]))) = map fst kvs
       \<and> count_list (ts @ [t]) t = count_list ts t + 1"
proof -
  let ?rq = "request_of (m_base_url m @ ''/api/recipes/'', Some slug) ''patch'' (m_headers m) []
                 (Some (JObj (dict_set kvs ''tags'' (JArr (ts @ [t])))))"
  have a: "append_tag (JObj kvs) (tag m) = Inr (JObj (dict_set kvs ''tags'' (JArr (ts @ [t]))))"
    using assms(2,3) by (simp add: append_tag_def)
  have s: "supported ''patch''" by (simp add: supported_def)
  have "trace (snd (update_mealie_recipe srv m slug e))
          = trace (snd (json_request srv (m_base_url m @ ''/api/recipes/'', Some slug) ''patch''
                       (m_headers m) [] (Some (JObj (dict_set kvs ''tags'' (JArr (ts @ [t])))))
                       (logging DEBUG ''Patching recipe to add custom tag to it'' [] e1)))"
    using assms(1) a by (simp add: update_mealie_recipe_def split: prod.splits outcome.splits)
  also have "\<dots> = trace e1 @ [(?rq, fst (srv (world e1) ?rq))]"
    by (simp add: json_request_trace [OF s])
  finally have tr: "trace (snd (update_mealie_recipe srv m slug e))
                      = trace e1 @ [(?rq, fst (srv (world e1) ?rq))]" .
  have k: "map fst (dict_set kvs ''tags'' (JArr (ts @ [t]))) = map fst kvs"
    using assms(2) by (rule keys_dict_set)
  from tr k show ?thesis by (simp add: map_of_dict_set)
qed

theorem update_appends_tag_witness:
  "map (\<lambda>x. data (fst x)) (patches (trace (snd (update_mealie_recipe srv_recipe mealie_hf (JStr ''soup'') env0))))
     = [Some (JObj [(''name'', JStr ''Soup''), (''tags'', JArr [tag_hf, tag_hf])])]"
proof -
  have g: "get_mealie_recipe srv_recipe mealie_hf (JStr ''soup'') env0
             = (Return (JObj [(''name'', JStr ''Soup''), (''tags'', JArr [tag_hf])]),
                \<lparr>world = (),
                 trace = [(request_of (''https://mealie/api/recipes/'', Some (JStr ''soup'')) ''get'' [] [] None,
                           Reply 200 (Some (JObj [(''name'', JStr ''Soup''), (''tags'', JArr [tag_hf])])))],
                 logs = [(DEBUG, ''Getting newly created recipe ID'', [])]\<rparr>)"
    by (simp add: get_mealie_recipe_def json_request_def send_def srv_recipe_def mealie_hf_def
          env0_def raise_for_status_def logging_def request_of_def)
  have m: "map_of [(''name'', JStr ''Soup''), (''tags'', JArr [tag_hf])] ''tags'' = Some (JArr [tag_hf])"
    by simp
  have t: "tag mealie_hf = Some tag_hf" by (simp add: mealie_hf_def)
  from update_appends_tag [OF g m t] show ?thesis
    by (simp add: patches_def request_of_def)
qed

lemma add_mealie_recipe_Return:
  "add_mealie_recipe srv m u e = (Return slug, e1) \<Longrightarrow>
     \<exists>rp. trace e1 = trace e @
            [(request_of (m_base_url m @ ''/api/recipes/create/url'', None) ''post'' (m_headers m) []
                (Some (JObj [(''url'', u)])), rp)]
          \<and> reply_body rp = Some slug"
  by (auto simp: add_mealie_recipe_def reply_body_def dest!: json_request_Return)

lemma update_mealie_recipe_Return:
  assumes "update_mealie_recipe srv m slug e = (Return (), e2)"
  shows "\<exists>g p. trace e2 = trace e @ [g, p] \<and> http_method (fst g) = ''get''
              \<and> http_method (fst p) = ''patch'' \<and> snd (url (fst p)) = Some slug"
proof -
  from assms obtain body e1 where
    g: "get_mealie_recipe srv m slug e = (Return body, e1)"
    by (auto simp: update_mealie_recipe_def split: prod.splits outcome.splits)
  from assms g obtain patched where
    a: "append_tag body (tag m) = Inr patched"
    by (auto simp: update_mealie_recipe_def split: sum.splits)
  from assms g a obtain r where
    p: "json_request srv (m_base_url m @ ''/api/recipes/'', Some slug) ''patch'' (m_headers m) []
          (Some patched) (logging DEBUG ''Patching recipe to add custom tag to it'' [] e1) = (Return r, e2)"
    by (auto simp: update_mealie_recipe_def split: prod.splits outcome.splits)
  from g obtain st1 where
    t1: "trace e1 = trace e @ [(request_of (m_base_url m @ ''/api/recipes/'', Some slug) ''get''
                                  (m_headers m) [] None, Reply st1 (Some body))]"
    by (auto simp: get_mealie_recipe_def dest!: json_request_Return)
  from json_request_Return [OF p] obtain st2 where
    t2: "trace e2 = trace e1 @ [(request_of (m_base_url m @ ''/api/recipes/'', Some slug) ''patch''
                                  (m_headers m) [] (Some patched), Reply st2 (Some r))]"
    by auto
  from t1 t2 show ?thesis by (simp add: request_of_def)
qed

lemma import_recipes_trace:
  "import_recipes srv m new e = (Return (), e') \<Longrightarrow>
     \<exists>tr. trace e' = trace e @ tr \<and> length tr = 3 * length new
        \<and> map (\<lambda>x. data (fst x)) (posts tr) = map (\<lambda>u. Some (JObj [(''url'', u)])) new
        \<and> length (patches tr) = length new
        \<and> map (\<lambda>x. snd (url (fst x))) (patches tr) = map (\<lambda>x. reply_body (snd x)) (posts tr)"
proof (induction new arbitrary: e)
  case Nil
  then show ?case by (simp add: posts_def patches_def)
next
  case (Cons u us)
  from Cons.prems obtain slug e1 where
    c: "add_mealie_recipe srv m u e = (Return slug, e1)"
    by (auto split: prod.splits outcome.splits)
  from Cons.prems c obtain e2 where
    up: "update_mealie_recipe srv m slug e1 = (Return (), e2)"
    and rest: "import_recipes srv m us e2 = (Return (), e')"
    by (auto split: prod.splits outcome.splits)
  from add_mealie_recipe_Return [OF c] obtain rp where
    t1: "trace e1 = trace e @
            [(request_of (m_base_url m @ ''/api/recipes/create/url'', None) ''post'' (m_headers m) []
                (Some (JObj [(''url'', u)])), rp)]"
    and b: "reply_body rp = Some slug" by auto
  from update_mealie_recipe_Return [OF up] obtain g p where
    t2: "trace e2 = trace e1 @ [g, p]" and g: "http_method (fst g) = ''get''"
    and p: "http_method (fst p) = ''patch''" and ps: "snd (url (fst p)) = Some slug" by auto
  from Cons.IH [OF rest] obtain tr where
    t3: "trace e' = trace e2 @ tr" and l: "length tr = 3 * length us"
    and po: "map (\<lambda>x. data (fst x)) (posts tr) = map (\<lambda>u. Some (JObj [(''url'', u)])) us"
    and pl: "length (patches tr) = length us"
    and pa: "map (\<lambda>x. snd (url (fst x))) (patches tr) = map (\<lambda>x. reply_body (snd x)) (posts tr)"
    by auto
  let ?c = "(request_of (m_base_url m @ ''/api/recipes/create/url'', None) ''post'' (m_headers m) []
                (Some (JObj [(''url'', u)])), rp)"
  have "trace e' = trace e @ (?c # g # p # tr)" using t1 t2 t3 by simp
  moreover have "length (?c # g # p # tr) = 3 * length (u # us)" using l by simp
  moreover have "posts (?c # g # p # tr) = ?c # posts tr"
    using g p by (simp add: posts_def request_of_def)
  moreover have "patches (?c # g # p # tr) = p # patches tr"
    using g p by (simp add: patches_def request_of_def)
  ultimately show ?case using po pl pa b ps
    by (intro exI [of _ "?c # g # p # tr"]) (simp add: request_of_def)
qed

text \<open>
  C6. A live run of the end of the driver that completes has sent three requests for
  each element of the missing set and nothing else: among them one POST per element,
  carrying that element as the URL to create, in the order of the elements, and one
  PATCH per element, addressed to the identifier that the reply to that element's POST
  carried. When the missing set is empty no request is sent.
\<close>

theorem live_run_calls:
  assumes "reconcile srv False hf m e = (Return (), e')"
  shows "trace e' = trace e @ calls_since e e'
       \<and> length (calls_since e e') = 3 * length (new_recipes hf m)
       \<and> map (\<lambda>x. data (fst x)) (posts (calls_since e e'))
           = map (\<lambda>u. Some (JObj [(''url'', u)])) (new_recipes hf m)
       \<and> length (patches (calls_since e e')) = length (new_recipes hf m)
       \<and> map (\<lambda>x. snd (url (fst x))) (patches (calls_since e e'))
           = map (\<lambda>x. reply_body (snd x)) (posts (calls_since e e'))"
proof -
  from assms have "import_recipes srv m (new_recipes hf m) e = (Return (), e')"
    by (simp add: reconcile_def)
  from import_recipes_trace [OF this] obtain tr where
    t: "trace e' = trace e @ tr" and r: "length tr = 3 * length (new_recipes hf m)"
      "map (\<lambda>x. data (fst x)) (posts tr) = map (\<lambda>u. Some (JObj [(''url'', u)])) (new_recipes hf m)"
      "length (patches tr) = length (new_recipes hf m)"
      "map (\<lambda>x. snd (url (fst x))) (patches tr) = map (\<lambda>x. reply_body (snd x)) (posts tr)"
    by auto
  from t have "calls_since e e' = tr" by (simp add: calls_since_def)
  with t r show ?thesis by simp
qed

theorem live_run_calls_witness:
  "map (\<lambda>x. data (fst x)) (posts (calls_since env0 (snd (reconcile srv_import False hf_a mealie_hf env0))))
     = [Some (JObj [(''url'', JStr ''A'')])]
   \<and> length (calls_since env0 (snd (reconcile srv_import False hf_a mealie_hf env0))) = 3
   \<and> map (\<lambda>x. snd (url (fst x))) (patches (calls_since env0 (snd (reconcile srv_import False hf_a mealie_hf env0))))
       = map (\<lambda>x. reply_body (snd x)) (posts (calls_since env0 (snd (reconcile srv_import False hf_a mealie_hf env0))))"
proof -
  have n: "new_recipes hf_a mealie_hf = [JStr ''A'']"
    by (simp add: new_recipes_def set_diff_def set_member_def hf_a_def mealie_hf_def)
  have "fst (import_recipes srv_import mealie_hf [JStr ''A''] env0) = Return ()"
    by (simp add: add_mealie_recipe_def update_mealie_recipe_def
          get_mealie_recipe_def json_request_def send_def srv_import_def raise_for_status_def
          append_tag_def mealie_hf_def env0_def logging_def)
  then have "fst (reconcile srv_import False hf_a mealie_hf env0) = Return ()"
    by (simp add: reconcile_def n)
  then have h: "reconcile srv_import False hf_a mealie_hf env0
                  = (Return (), snd (reconcile srv_import False hf_a mealie_hf env0))"
    by (metis prod.collapse)
  from live_run_calls [OF h] show ?thesis by (simp add: n)
qed

section \<open>Properties of the collection of deliveries\<close>

lemma accumulates_refl: "accumulates rs [] rs"
  by (simp add: accumulates_def)

lemma accumulates_trans:
  "accumulates rs us rs1 \<Longrightarrow> accumulates rs1 vs rs2 \<Longrightarrow> accumulates rs (us @ vs) rs2"
  unfolding accumulates_def by (auto simp: image_Un)

lemma set_add_accumulates: "set_add rs u = Inr rs' \<Longrightarrow> accumulates rs [u] rs'"
  by (auto simp: set_add_def accumulates_def set_member_def split: if_splits)

lemma add_meals_Return:
  "add_meals ms hf e = (Return hf', e') \<Longrightarrow>
     accumulates (recipes hf) (meal_urls ms) (recipes hf')
     \<and> hf' = hf\<lparr>recipes := recipes hf'\<rparr> \<and> trace e' = trace e \<and> world e' = world e"
proof (induction ms arbitrary: hf e)
  case Nil
  then show ?case by (auto simp: meal_urls_def accumulates_refl)
next
  case (Cons meal ms)
  from Cons.prems obtain u rs where
    u: "getitem meal ''websiteURL'' = Inr u" and a: "set_add (recipes hf) u = Inr rs"
    and r: "add_meals ms (hf\<lparr>recipes := rs\<rparr>)
              (logging DEBUG ''Getting HelloFresh recipe URL: '' [u] e) = (Return hf', e')"
    by (auto split: sum.splits)
  from u have f: "field meal ''websiteURL'' = [u]"
    by (auto simp: getitem_def field_def split: json.splits option.splits)
  from Cons.IH [OF r] have ih: "accumulates rs (meal_urls ms) (recipes hf')"
    and fr: "hf' = hf\<lparr>recipes := recipes hf'\<rparr>" "trace e' = trace e" "world e' = world e"
    by (simp_all add: logging_def)
  from accumulates_trans [OF set_add_accumulates [OF a] ih]
  have "accumulates (recipes hf) (meal_urls (meal # ms)) (recipes hf')"
    using f by (simp add: meal_urls_def)
  with fr show ?case by simp
qed

lemma add_meals_strings:
  "add_meals ms hf e = (Return hf', e') \<Longrightarrow> \<forall>x\<in>set ms. \<exists>s. x = JStr s \<Longrightarrow> ms = []"
  by (cases ms) (auto simp: getitem_def)

lemma iter_Inr: "iter v = Inr xs \<Longrightarrow> xs = elements v \<or> (elements v = [] \<and> (\<forall>x\<in>set xs. \<exists>s. x = JStr s))"
  by (auto simp: iter_def elements_def split: json.splits)

lemma add_weeks_Return:
  "add_weeks ws hf e = (Return hf', e') \<Longrightarrow>
     accumulates (recipes hf) (week_urls ws) (recipes hf')
     \<and> hf' = hf\<lparr>recipes := recipes hf'\<rparr> \<and> trace e' = trace e \<and> world e' = world e"
proof (induction ws arbitrary: hf e)
  case Nil
  then show ?case by (auto simp: week_urls_def accumulates_refl)
next
  case (Cons w ws)
  from Cons.prems obtain meals ms hf1 e1 where
    m: "getitem w ''meals'' = Inr meals" and i: "iter meals = Inr ms"
    and a: "add_meals ms hf e = (Return hf1, e1)"
    and r: "add_weeks ws hf1 e1 = (Return hf', e')"
    by (auto split: sum.splits prod.splits outcome.splits)
  from m have f: "field w ''meals'' = [meals]"
    by (auto simp: getitem_def field_def split: json.splits option.splits)
  from iter_Inr [OF i] add_meals_strings [OF a] have ms: "meal_urls ms = meal_urls (elements meals)"
    by auto
  from add_meals_Return [OF a] have a1: "accumulates (recipes hf) (meal_urls ms) (recipes hf1)"
    and fr1: "hf1 = hf\<lparr>recipes := recipes hf1\<rparr>" "trace e1 = trace e" "world e1 = world e"
    by simp_all
  from Cons.IH [OF r] have ih: "accumulates (recipes hf1) (week_urls ws) (recipes hf')"
    and fr: "hf' = hf1\<lparr>recipes := recipes hf'\<rparr>" "trace e' = trace e1" "world e' = world e1"
    by simp_all
  from accumulates_trans [OF a1 ih]
  have "accumulates (recipes hf) (week_urls (w # ws)) (recipes hf')"
    using f ms by (simp add: week_urls_def)
  moreover from fr1(1) fr(1) have "hf' = hf\<lparr>recipes := recipes hf'\<rparr>"
    by (metis hellofresh.update_convs(4) hellofresh.surjective)
  ultimately show ?case using fr1 fr by simp
qed

lemma add_weeks_strings:
  "add_weeks ws hf e = (Return hf', e') \<Longrightarrow> \<forall>x\<in>set ws. \<exists>s. x = JStr s \<Longrightarrow> ws = []"
  by (cases ws) (auto simp: getitem_def)

lemma add_monthly_recipes_Return:
  assumes "add_monthly_recipes page hf e = (Return hf', e')"
  shows "accumulates (recipes hf) (page_urls page) (recipes hf')
     \<and> hf' = hf\<lparr>recipes := recipes hf'\<rparr> \<and> trace e' = trace e \<and> world e' = world e"
proof -
  from assms obtain weeks ws where
    g: "getitem page ''weeks'' = Inr weeks" and i: "iter weeks = Inr ws"
    and a: "add_weeks ws hf e = (Return hf', e')"
    by (auto simp: add_monthly_recipes_def split: sum.splits)
  from g have f: "field page ''weeks'' = [weeks]"
    by (auto simp: getitem_def field_def split: json.splits option.splits)
  from iter_Inr [OF i] add_weeks_strings [OF a] have "week_urls ws = week_urls (elements weeks)"
    by auto
  with add_weeks_Return [OF a] f show ?thesis by (simp add: page_urls_def)
qed

lemma add_meals_trace: "add_meals ms hf e = (r, e') \<Longrightarrow> trace e' = trace e \<and> world e' = world e"
  by (induction ms arbitrary: hf e) (auto split: sum.splits simp: logging_def)

lemma add_meals_no_Exit: "add_meals ms hf e \<noteq> (Exit n, e')"
  by (induction ms arbitrary: hf e) (auto split: sum.splits)

lemma add_weeks_trace: "add_weeks ws hf e = (r, e') \<Longrightarrow> trace e' = trace e \<and> world e' = world e"
  by (induction ws arbitrary: hf e)
     (auto split: sum.splits prod.splits outcome.splits dest: add_meals_trace)

lemma add_weeks_no_Exit: "add_weeks ws hf e \<noteq> (Exit n, e')"
  by (induction ws arbitrary: hf e)
     (auto split: sum.splits prod.splits outcome.splits simp: add_meals_no_Exit)

lemma add_monthly_recipes_trace:
  "add_monthly_recipes page hf e = (r, e') \<Longrightarrow> trace e' = trace e \<and> world e' = world e"
  by (auto simp: add_monthly_recipes_def split: sum.splits dest: add_weeks_trace)

lemma add_monthly_recipes_no_Exit: "add_monthly_recipes page hf e \<noteq> (Exit n, e')"
  by (auto simp: add_monthly_recipes_def add_weeks_no_Exit split: sum.splits)

lemma json_request_no_Raise: "json_request srv u m hs ps d e \<noteq> (Raise x, e')"
  by (auto simp: json_request_def send_def Let_def
           split: if_splits prod.splits http_reply.splits option.splits)

lemma add_monthly_recipes_dict:
  "add_monthly_recipes page hf e = (Return hf', e') \<Longrightarrow> getitem page k \<noteq> Inl TypeError"
  by (auto simp: add_monthly_recipes_def getitem_def split: sum.splits json.splits option.splits)

lemma getitem_Inl: "getitem v k = Inl x \<Longrightarrow> x = KeyError \<or> x = TypeError"
  by (auto simp: getitem_def split: json.splits option.splits)

text \<open>One round of the loop of \<^verbatim>\<open>get_past_deliveries\<close>: how it ends or goes on.\<close>

lemma loop_cases:
  assumes "past_deliveries_loop srv a hf e = (r, e')"
  obtains
    (fetch_failed) n where
      "json_request srv (hf_base_url hf @ ''/my-deliveries/past-deliveries'', None) ''get''
         (hf_headers hf) (hf_params hf) None e = (Exit n, e')" "r = Exit n"
  | (extract_failed) page e1 x where
      "json_request srv (hf_base_url hf @ ''/my-deliveries/past-deliveries'', None) ''get''
         (hf_headers hf) (hf_params hf) None e = (Return page, e1)"
      "add_monthly_recipes page hf e1 = (Raise x, e')" "r = Raise x"
  | (budget_spent) page e1 hf1 where
      "json_request srv (hf_base_url hf @ ''/my-deliveries/past-deliveries'', None) ''get''
         (hf_headers hf) (hf_params hf) None e = (Return page, e1)"
      "add_monthly_recipes page hf e1 = (Return hf1, e')" "a \<le> 0" "r = Return hf1"
  | (no_next_week) page e1 hf1 e2 where
      "json_request srv (hf_base_url hf @ ''/my-deliveries/past-deliveries'', None) ''get''
         (hf_headers hf) (hf_params hf) None e = (Return page, e1)"
      "add_monthly_recipes page hf e1 = (Return hf1, e2)" "a > 0"
      "getitem page ''nextWeek'' = Inl KeyError" "r = Return hf1"
      "e' = logging ERROR ''Asked to retrieve more months but no more deliveries found'' [JNum a]
              (logging DEBUG ''Getting more previous deliveries'' [] e2)"
  | (next_page) page e1 hf1 e2 next_week where
      "json_request srv (hf_base_url hf @ ''/my-deliveries/past-deliveries'', None) ''get''
         (hf_headers hf) (hf_params hf) None e = (Return page, e1)"
      "add_monthly_recipes page hf e1 = (Return hf1, e2)" "a > 0"
      "getitem page ''nextWeek'' = Inr next_week"
      "past_deliveries_loop srv (a - 1)
         (hf1\<lparr>hf_params := dict_set (hf_params hf1) ''from'' next_week\<rparr>)
         (logging DEBUG ''Getting more previous deliveries'' [] e2) = (r, e')"
proof -
  obtain r1 e1 where j: "json_request srv (hf_base_url hf @ ''/my-deliveries/past-deliveries'', None)
      ''get'' (hf_headers hf) (hf_params hf) None e = (r1, e1)" by fastforce
  show ?thesis
  proof (cases r1)
    case (Exit n)
    with assms j fetch_failed show ?thesis by (subst (asm) past_deliveries_loop.simps) auto
  next
    case (Raise x)
    with j json_request_no_Raise show ?thesis by metis
  next
    case (Return page)
    obtain r2 e2 where m: "add_monthly_recipes page hf e1 = (r2, e2)" by fastforce
    show ?thesis
    proof (cases r2)
      case (Exit n)
      with m add_monthly_recipes_no_Exit show ?thesis by metis
    next
      case (Raise x)
      with assms j m Return extract_failed show ?thesis
        by (subst (asm) past_deliveries_loop.simps) auto
    next
      case r2: (Return hf1)
      show ?thesis
      proof (cases "a > 0")
        case False
        with assms j m Return r2 budget_spent show ?thesis
          by (subst (asm) past_deliveries_loop.simps) auto
      next
        case True
        show ?thesis
        proof (cases "getitem page ''nextWeek''")
          case (Inr next_week)
          with assms j m Return r2 True next_page show ?thesis
            by (subst (asm) past_deliveries_loop.simps) auto
        next
          case (Inl x)
          with getitem_Inl add_monthly_recipes_dict m r2 have "x = KeyError" by metis
          with Inl assms j m Return r2 True no_next_week show ?thesis
            by (subst (asm) past_deliveries_loop.simps) auto
        qed
      qed
    qed
  qed
qed

lemma get_request_trace:
  "json_request srv u ''get'' hs ps d e = (r, e1) \<Longrightarrow> \<exists>x. trace e1 = trace e @ [x]"
  using json_request_trace [of "''get''" srv u hs ps d e] by (simp add: supported_def)

lemma loop_trace:
  "past_deliveries_loop srv a hf e = (r, e') \<Longrightarrow>
     \<exists>tr. trace e' = trace e @ tr \<and> 1 \<le> length tr \<and> int (length tr) \<le> max a 0 + 1"
proof (induction "nat a" arbitrary: a hf e)
  case 0
  from "0.prems" show ?case
  proof (cases rule: loop_cases)
    case (fetch_failed n)
    from get_request_trace [OF fetch_failed(1)] show ?thesis by auto
  next
    case (extract_failed page e1 x)
    from get_request_trace [OF extract_failed(1)] add_monthly_recipes_trace [OF extract_failed(2)]
    show ?thesis by auto
  next
    case (budget_spent page e1 hf1)
    from get_request_trace [OF budget_spent(1)] add_monthly_recipes_trace [OF budget_spent(2)]
    show ?thesis by auto
  next
    case (no_next_week page e1 hf1 e2)
    with 0 show ?thesis by simp
  next
    case (next_page page e1 hf1 e2 next_week)
    with 0 show ?thesis by simp
  qed
next
  case (Suc n)
  from Suc.prems show ?case
  proof (cases rule: loop_cases)
    case (fetch_failed n)
    from get_request_trace [OF fetch_failed(1)] show ?thesis by auto
  next
    case (extract_failed page e1 x)
    from get_request_trace [OF extract_failed(1)] add_monthly_recipes_trace [OF extract_failed(2)]
    show ?thesis by auto
  next
    case (budget_spent page e1 hf1)
    from get_request_trace [OF budget_spent(1)] add_monthly_recipes_trace [OF budget_spent(2)]
    show ?thesis by auto
  next
    case (no_next_week page e1 hf1 e2)
    from get_request_trace [OF no_next_week(1)] add_monthly_recipes_trace [OF no_next_week(2)]
      no_next_week(6)
    show ?thesis by auto
  next
    case (next_page page e1 hf1 e2 next_week)
    from Suc.hyps(2) next_page(3) have "n = nat (a - 1)" by simp
    from Suc.hyps(1) [OF this next_page(5)] obtain tr where
      t: "trace e' = trace e2 @ tr" and l: "1 \<le> length tr" "int (length tr) \<le> max (a - 1) 0 + 1"
      by auto
    from get_request_trace [OF next_page(1)] add_monthly_recipes_trace [OF next_page(2)]
    obtain x where "trace e2 = trace e @ [x]" by auto
    with t have "trace e' = trace e @ (x # tr)" by simp
    moreover from l next_page(3) have "1 \<le> length (x # tr)" "int (length (x # tr)) \<le> max a 0 + 1"
      by simp_all
    ultimately show ?thesis by blast
  qed
qed

lemma loop_Return:
  "past_deliveries_loop srv a hf e = (Return hf', e') \<Longrightarrow>
     \<exists>tr. trace e' = trace e @ tr
        \<and> accumulates (recipes hf) (concat (map page_urls (pages tr))) (recipes hf')"
proof (induction "nat a" arbitrary: a hf e)
  case 0
  from "0.prems" show ?case
  proof (cases rule: loop_cases)
    case (budget_spent page e1 hf1)
    from json_request_Return [OF budget_spent(1)] obtain st where
      "trace e1 = trace e @ [(request_of (hf_base_url hf @ ''/my-deliveries/past-deliveries'', None)
          ''get'' (hf_headers hf) (hf_params hf) None, Reply st (Some page))]" by auto
    with add_monthly_recipes_Return [OF budget_spent(2)] budget_spent(4)
    show ?thesis by (auto simp: pages_def reply_body_def)
  next
    case (no_next_week page e1 hf1 e2)
    with 0 show ?thesis by simp
  next
    case (next_page page e1 hf1 e2 next_week)
    with 0 show ?thesis by simp
  qed simp_all
next
  case (Suc n)
  from Suc.prems show ?case
  proof (cases rule: loop_cases)
    case (budget_spent page e1 hf1)
    with Suc.hyps(2) show ?thesis by simp
  next
    case (no_next_week page e1 hf1 e2)
    from json_request_Return [OF no_next_week(1)] obtain st where
      "trace e1 = trace e @ [(request_of (hf_base_url hf @ ''/my-deliveries/past-deliveries'', None)
          ''get'' (hf_headers hf) (hf_params hf) None, Reply st (Some page))]" by auto
    with add_monthly_recipes_Return [OF no_next_week(2)] no_next_week(5,6)
    show ?thesis by (auto simp: pages_def reply_body_def)
  next
    case (next_page page e1 hf1 e2 next_week)
    from Suc.hyps(2) next_page(3) have "n = nat (a - 1)" by simp
    from Suc.hyps(1) [OF this next_page(5)] obtain tr where
      t: "trace e' = trace e2 @ tr"
      and ac: "accumulates (recipes hf1) (concat (map page_urls (pages tr))) (recipes hf')"
      by auto
    from json_request_Return [OF next_page(1)] obtain st where
      t1: "trace e1 = trace e @ [(request_of (hf_base_url hf @ ''/my-deliveries/past-deliveries'', None)
          ''get'' (hf_headers hf) (hf_params hf) None, Reply st (Some page))]" by auto
    let ?x = "(request_of (hf_base_url hf @ ''/my-deliveries/past-deliveries'', None)
          ''get'' (hf_headers hf) (hf_params hf) None, Reply st (Some page))"
    from add_monthly_recipes_Return [OF next_page(2)]
    have a1: "accumulates (recipes hf) (page_urls page) (recipes hf1)" and "trace e2 = trace e1"
      by simp_all
    with t t1 have "trace e' = trace e @ (?x # tr)" by simp
    moreover from accumulates_trans [OF a1 ac]
    have "accumulates (recipes hf) (concat (map page_urls (pages (?x # tr)))) (recipes hf')"
      by (simp add: pages_def reply_body_def)
    ultimately show ?thesis by blast
  qed simp_all
qed

lemma strings_py_key:
  assumes "\<forall>u\<in>A. \<exists>s. u = JStr s"
  shows "py_key ` A = A"
proof -
  have "py_key u = u" if "u \<in> A" for u
    using that assms by (auto simp: py_key_def)
  then have "py_key ` A = id ` A" by (intro image_cong) simp_all
  then show ?thesis by simp
qed

text \<open>
  C2. When \<^verbatim>\<open>get_past_deliveries\<close> completes, the recipe set holds the URLs it held before
  and the \<^verbatim>\<open>websiteURL\<close> values of all meals of all weeks of all pages received, and
  nothing else: every such value has an equal in the set, every element of the set is
  one of these values, and no two elements are equal when no two were before. When the
  values are strings the set is exactly their union.
\<close>

theorem collect_deliveries_union:
  assumes "get_past_deliveries srv a hf e = (Return hf', e')"
  shows "py_key ` set (recipes hf') = py_key ` (set (recipes hf) \<union> set (visited_urls e e'))
       \<and> set (recipes hf') \<subseteq> set (recipes hf) \<union> set (visited_urls e e')
       \<and> (distinct (map py_key (recipes hf)) \<longrightarrow> distinct (map py_key (recipes hf')))
       \<and> ((\<forall>u\<in>set (recipes hf) \<union> set (visited_urls e e'). \<exists>s. u = JStr s) \<longrightarrow>
            set (recipes hf') = set (recipes hf) \<union> set (visited_urls e e'))"
proof -
  from assms have "past_deliveries_loop srv a hf (logging DEBUG ''Getting last month deliveries'' [] e)
                     = (Return hf', e')"
    by (simp add: get_past_deliveries_def)
  from loop_Return [OF this] obtain tr where
    t: "trace e' = trace e @ tr"
    and ac: "accumulates (recipes hf) (concat (map page_urls (pages tr))) (recipes hf')"
    by auto
  from t have "visited_urls e e' = concat (map page_urls (pages tr))"
    by (simp add: visited_urls_def calls_since_def)
  with ac have a: "accumulates (recipes hf) (visited_urls e e') (recipes hf')" by simp
  then have k: "py_key ` set (recipes hf') = py_key ` (set (recipes hf) \<union> set (visited_urls e e'))"
    and s: "set (recipes hf') \<subseteq> set (recipes hf) \<union> set (visited_urls e e')"
    and d: "distinct (map py_key (recipes hf)) \<longrightarrow> distinct (map py_key (recipes hf'))"
    by (simp_all add: accumulates_def)
  have "set (recipes hf') = set (recipes hf) \<union> set (visited_urls e e')"
    if st: "\<forall>u\<in>set (recipes hf) \<union> set (visited_urls e e'). \<exists>s. u = JStr s"
  proof -
    from st s have "\<forall>u\<in>set (recipes hf'). \<exists>s. u = JStr s" by blast
    then have "set (recipes hf') = py_key ` set (recipes hf')"
      by (rule strings_py_key [symmetric])
    also note k
    also from st have "py_key ` (set (recipes hf) \<union> set (visited_urls e e'))
                         = set (recipes hf) \<union> set (visited_urls e e')"
      by (rule strings_py_key)
    finally show ?thesis .
  qed
  then have "(\<forall>u\<in>set (recipes hf) \<union> set (visited_urls e e'). \<exists>s. u = JStr s) \<longrightarrow>
            set (recipes hf') = set (recipes hf) \<union> set (visited_urls e e')" by (rule impI)
  with k s d show ?thesis by (intro conjI)
qed

theorem collect_deliveries_union_witness:
  "fst (get_past_deliveries srv_pages 1 hf0 env_pages)
     = Return (hf0\<lparr>hf_params := [(''country'', JStr ''FR''), (''locale'', JStr ''fr-FR''),
                                   (''from'', JStr ''2024-W48'')],
                    recipes := [JStr ''u1'', JStr ''u2'', JStr ''u3'']\<rparr>)
   \<and> set [JStr ''u1'', JStr ''u2'', JStr ''u3'']
       = set (visited_urls env_pages (snd (get_past_deliveries srv_pages 1 hf0 env_pages)))"
proof -
  have f: "fst (get_past_deliveries srv_pages 1 hf0 env_pages)
     = Return (hf0\<lparr>hf_params := [(''country'', JStr ''FR''), (''locale'', JStr ''fr-FR''),
                                   (''from'', JStr ''2024-W48'')],
                    recipes := [JStr ''u1'', JStr ''u2'', JStr ''u3'']\<rparr>)"
    by (simp add: get_past_deliveries_def json_request_def send_def srv_pages_def env_pages_def
          hf0_def page_first_def page_last_def raise_for_status_def add_monthly_recipes_def
          getitem_def iter_def set_add_def hashable_def set_member_def py_key_def logging_def)
  then have h: "get_past_deliveries srv_pages 1 hf0 env_pages
     = (Return (hf0\<lparr>hf_params := [(''country'', JStr ''FR''), (''locale'', JStr ''fr-FR''),
                                   (''from'', JStr ''2024-W48'')],
                    recipes := [JStr ''u1'', JStr ''u2'', JStr ''u3'']\<rparr>),
        snd (get_past_deliveries srv_pages 1 hf0 env_pages))"
    by (metis prod.collapse)
  have v: "visited_urls env_pages (snd (get_past_deliveries srv_pages 1 hf0 env_pages))
             = [JStr ''u1'', JStr ''u1'', JStr ''u2'', JStr ''u3'']"
    by (simp add: get_past_deliveries_def json_request_def send_def srv_pages_def env_pages_def
          hf0_def page_first_def page_last_def raise_for_status_def add_monthly_recipes_def
          getitem_def iter_def set_add_def hashable_def set_member_def py_key_def logging_def
          visited_urls_def calls_since_def pages_def reply_body_def page_urls_def week_urls_def
          meal_urls_def field_def elements_def)
  from collect_deliveries_union [OF h] f v show ?thesis by (simp add: hf0_def)
qed

text \<open>
  C3, as the code has it. \<^verbatim>\<open>get_past_deliveries\<close> always ends, after at least one and at
  most \<open>max additional_deliveries 0 + 1\<close> requests. In any round of its loop, when the
  page arrived, its URLs were extracted, the budget is positive and the page has no
  \<^verbatim>\<open>nextWeek\<close>, the loop ends there: it returns the client with the URLs of that page
  added, one request made in the round and a notice logged at error level.
\<close>

theorem pagination_bound:
  "trace (snd (get_past_deliveries srv a hf e))
     = trace e @ calls_since e (snd (get_past_deliveries srv a hf e))
   \<and> 1 \<le> length (calls_since e (snd (get_past_deliveries srv a hf e)))
   \<and> int (length (calls_since e (snd (get_past_deliveries srv a hf e)))) \<le> max a 0 + 1
   \<and> (json_request srv (hf_base_url hf @ ''/my-deliveries/past-deliveries'', None) ''get''
         (hf_headers hf) (hf_params hf) None e = (Return page, e1)
       \<and> add_monthly_recipes page hf e1 = (Return hf1, e2)
       \<and> 0 < a \<and> getitem page ''nextWeek'' = Inl KeyError
       \<longrightarrow> past_deliveries_loop srv a hf e
             = (Return hf1,
                logging ERROR ''Asked to retrieve more months but no more deliveries found'' [JNum a]
                  (logging DEBUG ''Getting more previous deliveries'' [] e2))
           \<and> length (trace e2) = length (trace e) + 1
           \<and> accumulates (recipes hf) (page_urls page) (recipes hf1))"
proof -
  obtain r e' where g: "get_past_deliveries srv a hf e = (r, e')" by fastforce
  then have "past_deliveries_loop srv a hf (logging DEBUG ''Getting last month deliveries'' [] e)
               = (r, e')"
    by (simp add: get_past_deliveries_def)
  from loop_trace [OF this] obtain tr where
    t: "trace e' = trace e @ tr" and l: "1 \<le> length tr" "int (length tr) \<le> max a 0 + 1"
    by auto
  from t have c: "calls_since e e' = tr" by (simp add: calls_since_def)
  have stop: "past_deliveries_loop srv a hf e
             = (Return hf1,
                logging ERROR ''Asked to retrieve more months but no more deliveries found'' [JNum a]
                  (logging DEBUG ''Getting more previous deliveries'' [] e2))
           \<and> length (trace e2) = length (trace e) + 1
           \<and> accumulates (recipes hf) (page_urls page) (recipes hf1)"
    if j: "json_request srv (hf_base_url hf @ ''/my-deliveries/past-deliveries'', None) ''get''
         (hf_headers hf) (hf_params hf) None e = (Return page, e1)"
      and m: "add_monthly_recipes page hf e1 = (Return hf1, e2)"
      and p: "0 < a" and n: "getitem page ''nextWeek'' = Inl KeyError"
  proof -
    from j m p n have "past_deliveries_loop srv a hf e
             = (Return hf1,
                logging ERROR ''Asked to retrieve more months but no more deliveries found'' [JNum a]
                  (logging DEBUG ''Getting more previous deliveries'' [] e2))"
      by (subst past_deliveries_loop.simps) simp
    moreover from get_request_trace [OF j] add_monthly_recipes_trace [OF m]
    have "length (trace e2) = length (trace e) + 1" by auto
    moreover from add_monthly_recipes_Return [OF m]
    have "accumulates (recipes hf) (page_urls page) (recipes hf1)" by simp
    ultimately show ?thesis by simp
  qed
  from g t l c stop show ?thesis by auto
qed

theorem pagination_bound_witness:
  "fst (past_deliveries_loop srv_last_page 5 hf0 env0) = Return (hf0\<lparr>recipes := [JStr ''u3'']\<rparr>)
   \<and> length (trace (snd (past_deliveries_loop srv_last_page 5 hf0 env0))) = 1
   \<and> int (length (calls_since env0 (snd (get_past_deliveries srv_last_page 5 hf0 env0)))) \<le> 6"
proof -
  let ?j = "json_request srv_last_page (hf_base_url hf0 @ ''/my-deliveries/past-deliveries'', None)
              ''get'' (hf_headers hf0) (hf_params hf0) None env0"
  have "fst ?j = Return page_last"
    by (simp add: json_request_def send_def srv_last_page_def env0_def raise_for_status_def)
  then have j: "?j = (Return page_last, snd ?j)" by (metis prod.collapse)
  have tr: "trace (snd ?j) = [(request_of (hf_base_url hf0 @ ''/my-deliveries/past-deliveries'', None)
              ''get'' (hf_headers hf0) (hf_params hf0) None, Reply 200 (Some page_last))]"
    by (simp add: json_request_def send_def srv_last_page_def env0_def raise_for_status_def
          request_of_def)
  have "fst (add_monthly_recipes page_last hf0 (snd ?j)) = Return (hf0\<lparr>recipes := [JStr ''u3'']\<rparr>)"
    by (simp add: add_monthly_recipes_def page_last_def getitem_def iter_def set_add_def
          hashable_def set_member_def hf0_def)
  then have m: "add_monthly_recipes page_last hf0 (snd ?j)
                  = (Return (hf0\<lparr>recipes := [JStr ''u3'']\<rparr>), snd (add_monthly_recipes page_last hf0 (snd ?j)))"
    by (metis prod.collapse)
  have n: "getitem page_last ''nextWeek'' = Inl KeyError"
    by (simp add: getitem_def page_last_def)
  from pagination_bound [of srv_last_page 5 hf0 env0 page_last "snd ?j"
      "hf0\<lparr>recipes := [JStr ''u3'']\<rparr>" "snd (add_monthly_recipes page_last hf0 (snd ?j))"] j m n
    add_monthly_recipes_trace [OF m] tr
  show ?thesis by simp
qed

theorem negative_budget_counterexample:
  "\<not> int (length (calls_since env_pages (snd (get_past_deliveries srv_pages (- 1) hf0 env_pages))))
       \<le> (- 1) + 1"
  by (simp add: get_past_deliveries_def json_request_def send_def srv_pages_def env_pages_def
        hf0_def page_first_def raise_for_status_def add_monthly_recipes_def
        getitem_def iter_def set_add_def hashable_def set_member_def py_key_def logging_def
        calls_since_def)

section \<open>Properties of the tag resolution\<close>

lemma json_request_Return_world:
  "json_request srv u m hs ps d e = (Return j, e1) \<Longrightarrow>
     \<exists>st. srv (world e) (request_of u m hs ps d) = (Reply st (Some j), world e1)
          \<and> trace e1 = trace e @ [(request_of u m hs ps d, Reply st (Some j))]"
  by (auto simp: json_request_def send_def logging_def Let_def request_of_def
           split: if_splits prod.splits http_reply.splits option.splits)

lemma create_tag_Return:
  assumes "create_tag srv t m e = (Return m1, e1)"
  shows "\<exists>st tg. srv (world e) (create_request m t) = (Reply st (Some tg), world e1)
           \<and> m1 = m\<lparr>tag := Some tg\<rparr>
           \<and> trace e1 = trace e @ [(create_request m t, Reply st (Some tg))]"
proof -
  from assms obtain r e0 where
    j: "json_request srv (m_base_url m @ ''/api/organizers/tags'', None) ''post'' (m_headers m) []
          (Some (JObj [(''name'', JStr t)])) e = (Return r, e0)"
    and m1: "m1 = m\<lparr>tag := Some r\<rparr>" and e1: "e1 = logging DEBUG ''Tag has been created'' [JStr t] e0"
    by (auto simp: create_tag_def split: prod.splits outcome.splits)
  from json_request_Return_world [OF j] m1 e1 show ?thesis
    by (auto simp: create_request_def)
qed

lemma set_tag_id_cases:
  assumes "set_tag_id srv t m e = (Return m1, e1)"
  obtains
    (found) st body items first where
      "srv (world e) (search_request m t) = (Reply st (Some body), world e1)"
      "getitem body ''items'' = Inr items" "truthy items" "getitem0 items = Inr first"
      "m1 = m\<lparr>tag := Some first\<rparr>"
      "trace e1 = trace e @ [(search_request m t, Reply st (Some body))]"
  | (created) st body items w1 st2 tg where
      "srv (world e) (search_request m t) = (Reply st (Some body), w1)"
      "getitem body ''items'' = Inr items" "\<not> truthy items"
      "srv w1 (create_request m t) = (Reply st2 (Some tg), world e1)"
      "m1 = m\<lparr>tag := Some tg\<rparr>"
      "trace e1 = trace e @ [(search_request m t, Reply st (Some body)),
                             (create_request m t, Reply st2 (Some tg))]"
proof -
  from assms obtain body e0 where
    j: "json_request srv (m_base_url m @ ''/api/organizers/tags'', None) ''get'' (m_headers m)
          [(''search'', JStr t)] None (logging DEBUG ''Getting tag infos'' [JStr t] e) = (Return body, e0)"
    by (auto simp: set_tag_id_def split: prod.splits outcome.splits)
  from json_request_Return_world [OF j] obtain st where
    s: "srv (world e) (search_request m t) = (Reply st (Some body), world e0)"
    and t0: "trace e0 = trace e @ [(search_request m t, Reply st (Some body))]"
    by (auto simp: search_request_def)
  from assms j obtain items where i: "getitem body ''items'' = Inr items"
    by (auto simp: set_tag_id_def split: sum.splits)
  show ?thesis
  proof (cases "truthy items")
    case True
    with assms j i obtain first where
      "getitem0 items = Inr first" "m1 = m\<lparr>tag := Some first\<rparr>" "e1 = e0"
      by (auto simp: set_tag_id_def split: sum.splits)
    with s t0 i True found show ?thesis by simp
  next
    case False
    with assms j i have
      "create_tag srv t m (logging INFO ''Tag doesn't exist in Mealie, creating it'' [JStr t] e0)
         = (Return m1, e1)"
      by (simp add: set_tag_id_def)
    from create_tag_Return [OF this] obtain st2 tg where
      "srv (world e0) (create_request m t) = (Reply st2 (Some tg), world e1)"
      "m1 = m\<lparr>tag := Some tg\<rparr>"
      "trace e1 = trace e0 @ [(create_request m t, Reply st2 (Some tg))]"
      by auto
    with s t0 i False created show ?thesis by simp
  qed
qed

lemma posts_requests [simp]:
  "posts ((search_request m t, rp) # tr) = posts tr"
  "posts ((create_request m t, rp) # tr) = (create_request m t, rp) # posts tr"
  "posts [] = []"
  by (simp_all add: posts_def search_request_def create_request_def request_of_def)

lemma requests_same_client [simp]:
  "search_request (m\<lparr>tag := x\<rparr>) t = search_request m t"
  "create_request (m\<lparr>tag := x\<rparr>) t = create_request m t"
  by (simp_all add: search_request_def create_request_def)

text \<open>
  C9. A call of \<^verbatim>\<open>set_tag_id\<close> that completes has searched the tag by name; when the
  search found nothing it has issued exactly one creation request and adopted the tag
  in its reply, otherwise it has adopted the first match and created nothing. Against
  a destination that persists between calls (a search leaves its state as it is, and
  the search that follows a creation finds the created tag first), a second call with
  the same name creates nothing, both calls together create at most one tag, and the
  second call adopts the tag of the first.
\<close>

theorem set_tag_id_idempotent:
  assumes "set_tag_id srv t m e = (Return m1, e1)"
    and "set_tag_id srv t m1 e1 = (Return m2, e2)"
    and "snd (srv (world e) (search_request m t)) = world e"
    and "\<forall>items st tg w'.
           search_items srv m t (world e) = Some items \<and> \<not> truthy items
           \<and> srv (world e) (create_request m t) = (Reply st (Some tg), w')
           \<longrightarrow> (\<exists>st' body rest. fst (srv w' (search_request m t)) = Reply st' (Some body)
                  \<and> getitem body ''items'' = Inr (JArr (tg # rest)))"
  shows "(\<exists>items tg1. search_items srv m t (world e) = Some items \<and> tag m1 = Some tg1
            \<and> (if truthy items then posts (calls_since e e1) = [] \<and> getitem0 items = Inr tg1
                else map fst (posts (calls_since e e1)) = [create_request m t]
                   \<and> map (\<lambda>x. reply_body (snd x)) (posts (calls_since e e1)) = [Some tg1]))
       \<and> posts (calls_since e1 e2) = []
       \<and> length (posts (calls_since e e2)) \<le> 1
       \<and> tag m2 = tag m1"
  using assms(1)
proof (cases rule: set_tag_id_cases)
  case (found st body items first)
  from found(1,2) have si: "search_items srv m t (world e) = Some items"
    by (simp add: search_items_def reply_body_def)
  from found(6) have c1: "calls_since e e1 = [(search_request m t, Reply st (Some body))]"
    by (simp add: calls_since_def)
  from found(1) assms(3) have w: "world e1 = world e" by simp
  from assms(2) have second: "tag m2 = tag m1
      \<and> (\<exists>rp. trace e2 = trace e1 @ [(search_request m t, rp)])"
  proof (cases rule: set_tag_id_cases)
    case again: (found st' body' items' first')
    from again(1) found(1,5) w have "body' = body" by simp
    with again(2,4) found(2,4) have "first' = first" by simp
    with again(5,6) found(5) show ?thesis by simp
  next
    case again: (created st' body' items' w1 st2 tg)
    from again(1) found(1,5) w have "body' = body" by simp
    with again(2,3) found(2,3) show ?thesis by simp
  qed
  then obtain rp where t2: "trace e2 = trace e1 @ [(search_request m t, rp)]" by auto
  from t2 have c2: "calls_since e1 e2 = [(search_request m t, rp)]"
    by (simp add: calls_since_def)
  from t2 found(6)
  have c: "calls_since e e2 = [(search_request m t, Reply st (Some body)), (search_request m t, rp)]"
    by (simp add: calls_since_def)
  from si found(3,4,5) c1 have
    "\<exists>items tg1. search_items srv m t (world e) = Some items \<and> tag m1 = Some tg1
            \<and> (if truthy items then posts (calls_since e e1) = [] \<and> getitem0 items = Inr tg1
                else map fst (posts (calls_since e e1)) = [create_request m t]
                   \<and> map (\<lambda>x. reply_body (snd x)) (posts (calls_since e e1)) = [Some tg1])"
    by simp
  with second c2 c show ?thesis by simp
next
  case (created st body items w1 st2 tg)
  from created(1) assms(3) have w1: "w1 = world e" by simp
  from created(1,2) have si: "search_items srv m t (world e) = Some items"
    by (simp add: search_items_def reply_body_def)
  from created(6) have c1: "calls_since e e1 = [(search_request m t, Reply st (Some body)),
                             (create_request m t, Reply st2 (Some tg))]"
    by (simp add: calls_since_def)
  from assms(4) si created(3,4) w1 obtain st' body2 rest where
    f: "fst (srv (world e1) (search_request m t)) = Reply st' (Some body2)"
    and i2: "getitem body2 ''items'' = Inr (JArr (tg # rest))"
    by blast
  from assms(2) have second: "tag m2 = tag m1
      \<and> (\<exists>rp. trace e2 = trace e1 @ [(search_request m t, rp)])"
  proof (cases rule: set_tag_id_cases)
    case again: (found st'' body' items' first')
    from again(1) f created(5) have "body' = body2" by simp
    with again(2) i2 have "items' = JArr (tg # rest)" by simp
    with again(4) have "first' = tg" by (simp add: getitem0_def)
    with again(5,6) created(5) show ?thesis by simp
  next
    case again: (created st'' body' items' w2 st3 tg')
    from again(1) f created(5) have "body' = body2" by simp
    with again(2) i2 have "items' = JArr (tg # rest)" by simp
    with again(3) show ?thesis by (simp add: truthy_def)
  qed
  then obtain rp where t2: "trace e2 = trace e1 @ [(search_request m t, rp)]" by auto
  from t2 have c2: "calls_since e1 e2 = [(search_request m t, rp)]"
    by (simp add: calls_since_def)
  from t2 created(6)
  have c: "calls_since e e2 = [(search_request m t, Reply st (Some body)),
                             (create_request m t, Reply st2 (Some tg)), (search_request m t, rp)]"
    by (simp add: calls_since_def)
  from si created(3,5) c1 have
    "\<exists>items tg1. search_items srv m t (world e) = Some items \<and> tag m1 = Some tg1
            \<and> (if truthy items then posts (calls_since e e1) = [] \<and> getitem0 items = Inr tg1
                else map fst (posts (calls_since e e1)) = [create_request m t]
                   \<and> map (\<lambda>x. reply_body (snd x)) (posts (calls_since e e1)) = [Some tg1])"
    by (simp add: reply_body_def)
  with second c2 c show ?thesis by simp
qed

theorem set_tag_id_idempotent_witness:
  "fst (set_tag_id srv_tags ''HelloFresh'' mealie0 env_no_tags)
     = Return (mealie0\<lparr>tag := Some tag_created\<rparr>)
   \<and> fst (set_tag_id srv_tags ''HelloFresh'' (mealie0\<lparr>tag := Some tag_created\<rparr>)
          (snd (set_tag_id srv_tags ''HelloFresh'' mealie0 env_no_tags)))
     = Return (mealie0\<lparr>tag := Some tag_created\<rparr>)
   \<and> length (posts (calls_since env_no_tags
         (snd (set_tag_id srv_tags ''HelloFresh'' (mealie0\<lparr>tag := Some tag_created\<rparr>)
            (snd (set_tag_id srv_tags ''HelloFresh'' mealie0 env_no_tags)))))) \<le> 1"
proof -
  let ?e1 = "snd (set_tag_id srv_tags ''HelloFresh'' mealie0 env_no_tags)"
  let ?m1 = "mealie0\<lparr>tag := Some tag_created\<rparr>"
  let ?e2 = "snd (set_tag_id srv_tags ''HelloFresh'' ?m1 ?e1)"
  have f1: "fst (set_tag_id srv_tags ''HelloFresh'' mealie0 env_no_tags) = Return ?m1"
    by (simp add: set_tag_id_def create_tag_def json_request_def send_def srv_tags_def
          env_no_tags_def mealie0_def tag_created_def raise_for_status_def getitem_def truthy_def
          logging_def)
  then have h1: "set_tag_id srv_tags ''HelloFresh'' mealie0 env_no_tags = (Return ?m1, ?e1)"
    by (metis prod.collapse)
  have w1: "world ?e1 = [tag_created]"
    by (simp add: set_tag_id_def create_tag_def json_request_def send_def srv_tags_def
          env_no_tags_def mealie0_def tag_created_def raise_for_status_def getitem_def truthy_def
          logging_def)
  have f2: "fst (set_tag_id srv_tags ''HelloFresh'' ?m1 ?e1) = Return ?m1"
    by (simp add: set_tag_id_def [of _ _ "mealie0\<lparr>tag := Some tag_created\<rparr>"]
          json_request_def send_def srv_tags_def w1
          raise_for_status_def getitem_def getitem0_def truthy_def logging_def)
  then have h2: "set_tag_id srv_tags ''HelloFresh'' ?m1 ?e1 = (Return ?m1, ?e2)"
    by (metis prod.collapse)
  have h3: "snd (srv_tags (world env_no_tags) (search_request mealie0 ''HelloFresh''))
              = world env_no_tags"
    by (simp add: srv_tags_def search_request_def request_of_def)
  have h4: "\<forall>items st tg w'.
           search_items srv_tags mealie0 ''HelloFresh'' (world env_no_tags) = Some items
           \<and> \<not> truthy items
           \<and> srv_tags (world env_no_tags) (create_request mealie0 ''HelloFresh'')
               = (Reply st (Some tg), w')
           \<longrightarrow> (\<exists>st' body rest.
                  fst (srv_tags w' (search_request mealie0 ''HelloFresh'')) = Reply st' (Some body)
                  \<and> getitem body ''items'' = Inr (JArr (tg # rest)))"
    by (auto simp: srv_tags_def search_request_def create_request_def request_of_def
          env_no_tags_def getitem_def)
  from set_tag_id_idempotent [OF h1 h2 h3 h4] f1 f2 show ?thesis by simp
qed

end
